theory Spec2Isabelle
  imports Main "HOL-Library.AList" "HOL-Library.Sublist"
begin

section \<open>The file system the generator runs against\<close>

text \<open>
  The three entry points of the repository (the editor command, the first command-line
  script and the newest command-line script) touch the outside world only through
  \<^verbatim>\<open>fs.readdirSync\<close>, \<^verbatim>\<open>fs.statSync\<close>, \<^verbatim>\<open>fs.existsSync\<close>,
  \<^verbatim>\<open>fs.mkdirSync\<close> and \<^verbatim>\<open>fs.writeFileSync\<close>. The file system is a finite tree:
  a regular file carries its content, a directory carries its entries in enumeration
  order. A path is the list of its components below the root of the tree, so that
  \<^verbatim>\<open>path.join(dir, entry)\<close> is \<open>dir @ [entry]\<close> for an entry name that is a single
  component (as the names returned by \<^verbatim>\<open>readdirSync\<close> and the keys of the hook
  tables are).
\<close>

datatype error = ENOENT | ENOTDIR | EISDIR | EEXIST | TypeError

datatype node = File string | Dir "(string \<times> node) list"

type_synonym path = "string list"

type_synonym hooktable = "(string \<times> string) list"

text \<open>Path resolution, with the error the system call reports when it fails.\<close>

fun resolve :: "node \<Rightarrow> path \<Rightarrow> error + node" where
  "resolve t [] = Inr t"
| "resolve (File c) (n # p) = Inl ENOTDIR"
| "resolve (Dir es) (n # p) =
     (case map_of es n of None \<Rightarrow> Inl ENOENT | Some ch \<Rightarrow> resolve ch p)"

datatype stats = Stats (isDirectory: bool)

definition existsSync :: "node \<Rightarrow> path \<Rightarrow> bool" where
  "existsSync fs p = (case resolve fs p of Inl e \<Rightarrow> False | Inr t \<Rightarrow> True)"

definition statSync :: "node \<Rightarrow> path \<Rightarrow> error + stats" where
  "statSync fs p =
     (case resolve fs p of
        Inl e \<Rightarrow> Inl e
      | Inr (File c) \<Rightarrow> Inr (Stats False)
      | Inr (Dir es) \<Rightarrow> Inr (Stats True))"

definition readdirSync :: "node \<Rightarrow> path \<Rightarrow> error + string list" where
  "readdirSync fs p =
     (case resolve fs p of
        Inl e \<Rightarrow> Inl e
      | Inr (File c) \<Rightarrow> Inl ENOTDIR
      | Inr (Dir es) \<Rightarrow> Inr (map fst es))"

text \<open>\<^verbatim>\<open>fs.mkdirSync(p, { recursive: true })\<close>: every missing segment is created, an
  existing directory is accepted, a regular file in the way is an error.\<close>

fun mkdirSync_recursive :: "node \<Rightarrow> path \<Rightarrow> error + node" where
  "mkdirSync_recursive (Dir es) [] = Inr (Dir es)"
| "mkdirSync_recursive (File c) [] = Inl EEXIST"
| "mkdirSync_recursive (File c) (n # p) = Inl ENOTDIR"
| "mkdirSync_recursive (Dir es) (n # p) =
     (case mkdirSync_recursive (case map_of es n of None \<Rightarrow> Dir [] | Some ch \<Rightarrow> ch) p of
        Inl e \<Rightarrow> Inl e
      | Inr d \<Rightarrow> Inr (Dir (AList.update n d es)))"

text \<open>\<^verbatim>\<open>fs.writeFileSync(p, data)\<close>: the parent must be an existing directory and the
  path itself must not be a directory; an existing file is replaced.\<close>

fun writeFileSync :: "node \<Rightarrow> path \<Rightarrow> string \<Rightarrow> error + node" where
  "writeFileSync (File old) [] data = Inr (File data)"
| "writeFileSync (Dir es) [] data = Inl EISDIR"
| "writeFileSync (File c) (n # p) data = Inl ENOTDIR"
| "writeFileSync (Dir es) (n # p) data =
     (case map_of es n of
        None \<Rightarrow> if p = [] then Inr (Dir (AList.update n (File data) es)) else Inl ENOENT
      | Some ch \<Rightarrow>
          (case writeFileSync ch p data of
             Inl e \<Rightarrow> Inl e
           | Inr ch' \<Rightarrow> Inr (Dir (AList.update n ch' es))))"

text \<open>What a path holds, as far as a caller can observe it at that path alone: nothing,
  a directory, or a regular file with its content.\<close>

datatype entry = IsDir | IsFile string

definition observe :: "node \<Rightarrow> path \<Rightarrow> entry option" where
  "observe fs p =
     (case resolve fs p of
        Inl e \<Rightarrow> None
      | Inr (File c) \<Rightarrow> Some (IsFile c)
      | Inr (Dir es) \<Rightarrow> Some IsDir)"

definition is_dir :: "node \<Rightarrow> path \<Rightarrow> bool" where
  "is_dir fs p = (observe fs p = Some IsDir)"

text \<open>A directory never lists one name twice. The predicate states this for a list of
  entries and, recursively, for everything below them.\<close>

fun wf_entries :: "(string \<times> node) list \<Rightarrow> bool" where
  "wf_entries [] = True"
| "wf_entries ((n, File c) # es) = (n \<notin> set (map fst es) \<and> wf_entries es)"
| "wf_entries ((n, Dir cs) # es) = (n \<notin> set (map fst es) \<and> wf_entries cs \<and> wf_entries es)"

section \<open>Directory resolution\<close>

subsection \<open>The recursive search of the editor command and the first script\<close>

text \<open>
  \<^verbatim>\<open>findHooksDirectory\<close> (editor command) and \<^verbatim>\<open>findTargetDirectory\<close> (first
  script) are the same function: list the directory, and for each entry that is a
  directory either return it (when it is called src or app) or search it before going
  on to the next entry. The \<^verbatim>\<open>for\<close> loop is the recursive function below, over the
  entries still to be examined; the recursive call of the source is the inner
  \<^verbatim>\<open>readdirSync\<close> followed by the loop over what it returns. Nothing in the
  definition presupposes that the search ends: not returning is the value \<open>None\<close>.
  \<^verbatim>\<open>if (result)\<close> tests a path that \<^verbatim>\<open>path.join\<close> built, which is never the empty
  string, so it is the test for a found directory.
\<close>

partial_function (option) findTargetDirectory_loop ::
  "node \<Rightarrow> path \<Rightarrow> string list \<Rightarrow> (error + path option) option" where
  "findTargetDirectory_loop fs dir entries =
     (case entries of
        [] \<Rightarrow> Some (Inr None)
      | entry # rest \<Rightarrow>
          (let entryPath = dir @ [entry] in
           case statSync fs entryPath of
             Inl e \<Rightarrow> Some (Inl e)
           | Inr st \<Rightarrow>
               if isDirectory st then
                 if entry = ''src'' \<or> entry = ''app'' then Some (Inr (Some entryPath))
                 else
                   (case readdirSync fs entryPath of
                      Inl e \<Rightarrow> Some (Inl e)
                    | Inr sub \<Rightarrow>
                        Option.bind (findTargetDirectory_loop fs entryPath sub) (\<lambda>res.
                          case res of
                            Inl e \<Rightarrow> Some (Inl e)
                          | Inr (Some result) \<Rightarrow> Some (Inr (Some result))
                          | Inr None \<Rightarrow> findTargetDirectory_loop fs dir rest))
               else findTargetDirectory_loop fs dir rest))"

declare findTargetDirectory_loop.simps [code]

definition findTargetDirectory_dfs :: "node \<Rightarrow> path \<Rightarrow> (error + path option) option" where
  "findTargetDirectory_dfs fs dir =
     (case readdirSync fs dir of
        Inl e \<Rightarrow> Some (Inl e)
      | Inr entries \<Rightarrow> findTargetDirectory_loop fs dir entries)"

definition findHooksDirectory :: "node \<Rightarrow> path \<Rightarrow> (error + path option) option" where
  "findHooksDirectory = findTargetDirectory_dfs"

subsection \<open>The three checks of the newest script\<close>

text \<open>\<^verbatim>\<open>fs.existsSync(p) && fs.statSync(p).isDirectory()\<close>\<close>

definition existsAndIsDirectory :: "node \<Rightarrow> path \<Rightarrow> error + bool" where
  "existsAndIsDirectory fs p =
     (if existsSync fs p then
        (case statSync fs p of Inl e \<Rightarrow> Inl e | Inr st \<Rightarrow> Inr (isDirectory st))
      else Inr False)"

definition findTargetDirectory :: "node \<Rightarrow> path \<Rightarrow> error + path option" where
  "findTargetDirectory fs dir =
     (let srcPath = dir @ [''src''] in
      case existsAndIsDirectory fs srcPath of
        Inl e \<Rightarrow> Inl e
      | Inr True \<Rightarrow>
          (let srcAppPath = srcPath @ [''app''] in
           case existsAndIsDirectory fs srcAppPath of
             Inl e \<Rightarrow> Inl e
           | Inr True \<Rightarrow> Inr (Some srcAppPath)
           | Inr False \<Rightarrow> Inr (Some srcPath))
      | Inr False \<Rightarrow>
          (let appPath = dir @ [''app''] in
           case existsAndIsDirectory fs appPath of
             Inl e \<Rightarrow> Inl e
           | Inr True \<Rightarrow> Inr (Some appPath)
           | Inr False \<Rightarrow> Inr None))"

section \<open>Writing the hook files\<close>

text \<open>
  The \<^verbatim>\<open>forEach\<close> over \<^verbatim>\<open>Object.entries(hooks)\<close>: one \<^verbatim>\<open>writeFileSync\<close> per
  entry, in order. An exception leaves the loop at once; the files written before it
  stay written, so the file system reached is returned together with the error.
\<close>

definition hookFile :: "path \<Rightarrow> string \<Rightarrow> path" where
  "hookFile hooksPath hookName = hooksPath @ [hookName @ ''.ts'']"

fun writeHooks :: "node \<Rightarrow> path \<Rightarrow> hooktable \<Rightarrow> node \<times> error option" where
  "writeHooks fs hooksPath [] = (fs, None)"
| "writeHooks fs hooksPath ((hookName, hookContent) # rest) =
     (case writeFileSync fs (hookFile hooksPath hookName) hookContent of
        Inl e \<Rightarrow> (fs, Some e)
      | Inr fs' \<Rightarrow> writeHooks fs' hooksPath rest)"

text \<open>The part that all three \<^verbatim>\<open>createHooksFolder\<close> functions share once a target is
  known: compute \<^verbatim>\<open>hooksPath\<close>, create it unless it exists, write the table.\<close>

definition writeHooksFolder :: "hooktable \<Rightarrow> node \<Rightarrow> path \<Rightarrow> node \<times> error option" where
  "writeHooksFolder hooks fs targetPath =
     (let hooksPath = targetPath @ [''hooks''] in
      case (if \<not> existsSync fs hooksPath then mkdirSync_recursive fs hooksPath else Inr fs) of
        Inl e \<Rightarrow> (fs, Some e)
      | Inr fs1 \<Rightarrow> writeHooks fs1 hooksPath hooks)"

section \<open>The entry points\<close>

text \<open>How a call of \<^verbatim>\<open>createHooksFolder\<close> ends: it returns, it ends the process with
  \<^verbatim>\<open>process.exit(code)\<close>, or an exception leaves it.\<close>

datatype outcome = Returned | Exited nat | Threw error

record world =
  disk :: node
  cwd :: path
  stdout :: "string list"
  stderr :: "string list"

definition show_path :: "path \<Rightarrow> string" where
  "show_path p = concat (map (\<lambda>c. ''/'' @ c) p)"

text \<open>\<^verbatim>\<open>process.cwd()\<close>: the working directory of the process, when it still exists
  as a directory; when it has been removed the call raises \<^verbatim>\<open>ENOENT\<close>.\<close>

definition process_cwd :: "world \<Rightarrow> error + path" where
  "process_cwd w = (if is_dir (disk w) (cwd w) then Inr (cwd w) else Inl ENOENT)"

definition createHooksFolder :: "hooktable \<Rightarrow> world \<Rightarrow> outcome \<times> world" where
  "createHooksFolder hooks w =
     (case process_cwd w of
        Inl e \<Rightarrow> (Threw e, w)
      | Inr currentDir \<Rightarrow>
     (case findTargetDirectory (disk w) currentDir of
        Inl e \<Rightarrow> (Threw e, w)
      | Inr None \<Rightarrow>
          (Exited 1,
           w\<lparr>stderr := stderr w @
               [''No src, src/app, or app folder found in the current directory.'']\<rparr>)
      | Inr (Some targetPath) \<Rightarrow>
          (case writeHooksFolder hooks (disk w) targetPath of
             (fs', Some e) \<Rightarrow> (Threw e, w\<lparr>disk := fs'\<rparr>)
           | (fs', None) \<Rightarrow>
               (Returned,
                w\<lparr>disk := fs',
                  stdout := stdout w @
                    [''Hooks folder created successfully in '' @
                     show_path (targetPath @ [''hooks''])]\<rparr>))))"

definition createHooksFolder_dfs :: "hooktable \<Rightarrow> world \<Rightarrow> (outcome \<times> world) option" where
  "createHooksFolder_dfs hooks w =
     (case process_cwd w of
        Inl e \<Rightarrow> Some (Threw e, w)
      | Inr currentDir \<Rightarrow>
      Option.bind (findTargetDirectory_dfs (disk w) currentDir) (\<lambda>found.
        case found of
          Inl e \<Rightarrow> Some (Threw e, w)
        | Inr None \<Rightarrow>
            Some (Exited 1,
              w\<lparr>stderr := stderr w @
                [''No src or app folder found in the current directory or its subdirectories.'']\<rparr>)
        | Inr (Some targetPath) \<Rightarrow>
            (case writeHooksFolder hooks (disk w) targetPath of
               (fs', Some e) \<Rightarrow> Some (Threw e, w\<lparr>disk := fs'\<rparr>)
             | (fs', None) \<Rightarrow>
                 Some (Returned,
                   w\<lparr>disk := fs',
                     stdout := stdout w @
                       [''Hooks folder created successfully in '' @
                        show_path (targetPath @ [''hooks''])]\<rparr>))))"

text \<open>The editor command. \<^verbatim>\<open>vscode.workspace.workspaceFolders\<close> has the type
  \<^verbatim>\<open>readonly WorkspaceFolder[] | undefined\<close>; a folder is represented by its
  \<^verbatim>\<open>uri.fsPath\<close>. \<^verbatim>\<open>!workspaceFolders\<close> holds for \<^verbatim>\<open>undefined\<close> only, and
  \<^verbatim>\<open>workspaceFolders[0].uri\<close> on an empty array is a \<^verbatim>\<open>TypeError\<close>.\<close>

record editor =
  edisk :: node
  workspaceFolders :: "path list option"
  errorMessages :: "string list"
  informationMessages :: "string list"

definition createHooksFolder_vscode :: "hooktable \<Rightarrow> editor \<Rightarrow> (outcome \<times> editor) option" where
  "createHooksFolder_vscode hooks ed =
     (case workspaceFolders ed of
        None \<Rightarrow>
          Some (Returned, ed\<lparr>errorMessages := errorMessages ed @ [''No workspace is open.'']\<rparr>)
      | Some folders \<Rightarrow>
          (case folders of
             [] \<Rightarrow> Some (Threw TypeError, ed)
           | workspacePath # others \<Rightarrow>
               Option.bind (findHooksDirectory (edisk ed) workspacePath) (\<lambda>found.
                 case found of
                   Inl e \<Rightarrow> Some (Threw e, ed)
                 | Inr None \<Rightarrow>
                     Some (Returned,
                       ed\<lparr>errorMessages := errorMessages ed @
                         [''No src or app folder found in the workspace.'']\<rparr>)
                 | Inr (Some targetPath) \<Rightarrow>
                     (case writeHooksFolder hooks (edisk ed) targetPath of
                        (fs', Some e) \<Rightarrow> Some (Threw e, ed\<lparr>edisk := fs'\<rparr>)
                      | (fs', None) \<Rightarrow>
                          Some (Returned,
                            ed\<lparr>edisk := fs',
                               informationMessages := informationMessages ed @
                                 [''Hooks folder created.'']\<rparr>)))))"

section \<open>Reference notions for the search\<close>

text \<open>The directories below a list of entries, as paths relative to it, in pre-order:
  a directory, then everything inside it, then its later siblings.\<close>

fun preorder_dirs :: "(string \<times> node) list \<Rightarrow> path list" where
  "preorder_dirs [] = []"
| "preorder_dirs ((n, File c) # es) = preorder_dirs es"
| "preorder_dirs ((n, Dir cs) # es) =
     [n] # map ((#) n) (preorder_dirs cs) @ preorder_dirs es"

definition is_marker :: "path \<Rightarrow> bool" where
  "is_marker p = (p \<noteq> [] \<and> (last p = ''src'' \<or> last p = ''app''))"

definition markers :: "(string \<times> node) list \<Rightarrow> path list" where
  "markers es = filter is_marker (preorder_dirs es)"

section \<open>Example trees\<close>

text \<open>The project of the specification's first scenario: \<^verbatim>\<open>/proj/src/components\<close> and
  \<^verbatim>\<open>/proj/src/app/page.tsx\<close>.\<close>

definition proj_entries :: "(string \<times> node) list" where
  "proj_entries =
     [(''package.json'', File ''{}''),
      (''src'',
        Dir [(''components'', Dir []),
             (''app'', Dir [(''page.tsx'', File ''export default Page'')])])]"

definition proj_disk :: node where
  "proj_disk = Dir [(''proj'', Dir proj_entries)]"

text \<open>A project with \<^verbatim>\<open>src\<close> and a sibling \<^verbatim>\<open>app\<close>.\<close>

definition sibling_disk :: node where
  "sibling_disk =
     Dir [(''proj'', Dir [(''app'', Dir []), (''src'', Dir [(''index.ts'', File ''x'')])])]"

text \<open>The second scenario: \<^verbatim>\<open>/empty\<close> with no folder called src or app below it.\<close>

definition empty_entries :: "(string \<times> node) list" where
  "empty_entries = [(''README.md'', File ''hello''), (''lib'', Dir [(''util.ts'', File ''x'')])]"

definition empty_disk :: node where
  "empty_disk = Dir [(''empty'', Dir empty_entries)]"

text \<open>A repository whose only source folder lies two levels down.\<close>

definition mono_entries :: "(string \<times> node) list" where
  "mono_entries =
     [(''packages'', Dir [(''web'', Dir [(''src'', Dir [(''main.ts'', File ''x'')])])])]"

definition mono_disk :: node where
  "mono_disk = Dir mono_entries"

text \<open>A tree searched from a directory that is itself called src.\<close>

definition nested_disk :: node where
  "nested_disk = Dir [(''src'', Dir [(''app'', Dir [(''page.tsx'', File ''x'')])])]"

text \<open>A project in which \<^verbatim>\<open>src/hooks\<close> already exists as a regular file.\<close>

definition blocked_disk :: node where
  "blocked_disk = Dir [(''src'', Dir [(''hooks'', File ''notes'')])]"

text \<open>A project whose \<^verbatim>\<open>src/hooks\<close> already holds a file of the user's and an older
  copy of one hook.\<close>

definition stamped_disk :: node where
  "stamped_disk =
     Dir [(''src'',
       Dir [(''hooks'',
         Dir [(''useMine.ts'', File ''mine''), (''useDebounce.ts'', File ''old'')])])]"

definition sample_hooks :: hooktable where
  "sample_hooks =
     [(''useDebounce'', ''export function useDebounce() {}''),
      (''useThrottle'', ''export function useThrottle() {}'')]"

text \<open>The two trees above after the sample table has been written below
  \<^verbatim>\<open>/proj/src/app\<close> and below \<^verbatim>\<open>/src\<close>.\<close>

definition proj_disk_after :: node where
  "proj_disk_after =
     Dir [(''proj'',
       Dir [(''package.json'', File ''{}''),
            (''src'',
              Dir [(''components'', Dir []),
                   (''app'',
                     Dir [(''page.tsx'', File ''export default Page''),
                          (''hooks'',
                            Dir [(''useDebounce.ts'', File ''export function useDebounce() {}''),
                                 (''useThrottle.ts'',
                                    File ''export function useThrottle() {}'')])])])])]"

definition stamped_disk_after :: node where
  "stamped_disk_after =
     Dir [(''src'',
       Dir [(''hooks'',
         Dir [(''useMine.ts'', File ''mine''),
              (''useDebounce.ts'', File ''export function useDebounce() {}''),
              (''useThrottle.ts'', File ''export function useThrottle() {}'')])])]"

text \<open>A project in which \<^verbatim>\<open>src/hooks/useThrottle.ts\<close> is a directory and an older
  \<^verbatim>\<open>useFetch.ts\<close> exists; a table of three hooks; and the same tree once the first
  hook of that table has been written.\<close>

definition partial_disk :: node where
  "partial_disk =
     Dir [(''src'',
       Dir [(''hooks'',
         Dir [(''useThrottle.ts'', Dir []), (''useFetch.ts'', File ''old fetch'')])])]"

definition three_hooks :: hooktable where
  "three_hooks =
     [(''useDebounce'', ''export function useDebounce() {}''),
      (''useThrottle'', ''export function useThrottle() {}''),
      (''useFetch'', ''export function useFetch() {}'')]"

definition partial_disk_after :: node where
  "partial_disk_after =
     Dir [(''src'',
       Dir [(''hooks'',
         Dir [(''useThrottle.ts'', Dir []), (''useFetch.ts'', File ''old fetch''),
              (''useDebounce.ts'', File ''export function useDebounce() {}'')])])]"

definition at_root :: "node \<Rightarrow> path \<Rightarrow> world" where
  "at_root t d = \<lparr>disk = t, cwd = d, stdout = [], stderr = []\<rparr>"

definition in_editor :: "node \<Rightarrow> path list option \<Rightarrow> editor" where
  "in_editor t folders =
     \<lparr>edisk = t, workspaceFolders = folders, errorMessages = [], informationMessages = []\<rparr>"

section \<open>Basic facts about the file system\<close>

lemma resolve_append:
  "resolve t (p @ q) = (case resolve t p of Inl e \<Rightarrow> Inl e | Inr u \<Rightarrow> resolve u q)"
  by (induction t p rule: resolve.induct) (auto split: option.splits)

section \<open>The three checks, as one decision\<close>

lemma existsAndIsDirectory_is_dir:
  "existsAndIsDirectory fs p = Inr (is_dir fs p)"
  by (auto simp: existsAndIsDirectory_def existsSync_def statSync_def is_dir_def observe_def
      split: sum.splits node.splits)

lemma findTargetDirectory_eq:
  "findTargetDirectory fs root =
     Inr (if is_dir fs (root @ [''src''])
          then (if is_dir fs (root @ [''src'', ''app''])
                then Some (root @ [''src'', ''app'']) else Some (root @ [''src'']))
          else if is_dir fs (root @ [''app'']) then Some (root @ [''app''])
          else None)"
  by (simp add: findTargetDirectory_def existsAndIsDirectory_is_dir Let_def)

section \<open>The recursive search returns\<close>

lemma loop_Nil: "findTargetDirectory_loop fs dir [] = Some (Inr None)"
  by (subst findTargetDirectory_loop.simps) simp

lemma loop_Cons:
  "findTargetDirectory_loop fs dir (entry # rest) =
     (case statSync fs (dir @ [entry]) of
        Inl e \<Rightarrow> Some (Inl e)
      | Inr st \<Rightarrow>
          if isDirectory st then
            if entry = ''src'' \<or> entry = ''app'' then Some (Inr (Some (dir @ [entry])))
            else
              Option.bind (findTargetDirectory_dfs fs (dir @ [entry])) (\<lambda>res.
                case res of
                  Inl e \<Rightarrow> Some (Inl e)
                | Inr (Some result) \<Rightarrow> Some (Inr (Some result))
                | Inr None \<Rightarrow> findTargetDirectory_loop fs dir rest)
          else findTargetDirectory_loop fs dir rest)"
  by (subst findTargetDirectory_loop.simps)
     (simp add: findTargetDirectory_dfs_def Let_def split: sum.splits)

lemma statSync_child:
  "resolve fs dir = Inr (Dir es) \<Longrightarrow>
   statSync fs (dir @ [n]) =
     (case map_of es n of None \<Rightarrow> Inl ENOENT
      | Some (File c) \<Rightarrow> Inr (Stats False) | Some (Dir cs) \<Rightarrow> Inr (Stats True))"
  by (simp add: statSync_def resolve_append split: option.splits node.splits)

lemma statSync_no_parent:
  "resolve fs dir = Inl e \<Longrightarrow> statSync fs (dir @ [n]) = Inl e"
  by (simp add: statSync_def resolve_append)

lemma statSync_file_parent:
  "resolve fs dir = Inr (File c) \<Longrightarrow> statSync fs (dir @ [n]) = Inl ENOTDIR"
  by (simp add: statSync_def resolve_append)

lemma dfs_child:
  "resolve fs dir = Inr (Dir es) \<Longrightarrow> map_of es n = Some (Dir cs) \<Longrightarrow>
   findTargetDirectory_dfs fs (dir @ [n]) = findTargetDirectory_loop fs (dir @ [n]) (map fst cs)"
  by (simp add: findTargetDirectory_dfs_def readdirSync_def resolve_append)

lemma loop_total_at:
  "resolve fs dir = Inr t \<Longrightarrow> \<exists>r. findTargetDirectory_loop fs dir names = Some r"
proof (induction t arbitrary: dir names)
  case (File c)
  then show ?case
    by (cases names) (simp_all add: loop_Nil loop_Cons statSync_file_parent)
next
  case (Dir es)
  show ?case
  proof (induction names)
    case Nil
    show ?case by (simp add: loop_Nil)
  next
    case (Cons entry rest)
    then obtain r0 where r0: "findTargetDirectory_loop fs dir rest = Some r0" by blast
    show ?case
    proof (cases "map_of es entry")
      case None
      with Dir.prems show ?thesis by (simp add: loop_Cons statSync_child)
    next
      case (Some ch)
      show ?thesis
      proof (cases ch)
        case (File c)
        with Some Dir.prems r0 show ?thesis by (simp add: loop_Cons statSync_child)
      next
        case inner: (Dir cs)
        have mem: "(entry, ch) \<in> set es" using Some by (rule map_of_SomeD)
        have "resolve fs (dir @ [entry]) = Inr ch"
          using Dir.prems Some by (simp add: resolve_append)
        from Dir.IH [OF mem _ this, of "map fst cs"]
        obtain r1 where r1: "findTargetDirectory_loop fs (dir @ [entry]) (map fst cs) = Some r1"
          by auto
        have "findTargetDirectory_dfs fs (dir @ [entry]) = Some r1"
          using dfs_child [OF Dir.prems] Some inner r1 by simp
        with Some inner Dir.prems r0 show ?thesis
          by (simp add: loop_Cons statSync_child split: sum.splits option.splits)
      qed
    qed
  qed
qed

lemma loop_total: "\<exists>r. findTargetDirectory_loop fs dir names = Some r"
proof (cases "resolve fs dir")
  case (Inl e)
  then show ?thesis
    by (cases names) (simp_all add: loop_Nil loop_Cons statSync_no_parent)
next
  case (Inr t)
  then show ?thesis by (rule loop_total_at)
qed

lemma dfs_total: "\<exists>r. findTargetDirectory_dfs fs dir = Some r"
  by (simp add: findTargetDirectory_dfs_def loop_total split: sum.splits)

section \<open>The recursive search is the pre-order search\<close>

lemma preorder_dirs_nonempty: "p \<in> set (preorder_dirs es) \<Longrightarrow> p \<noteq> []"
  by (induction es rule: preorder_dirs.induct) auto

lemma is_marker_single: "is_marker [n] = (n = ''src'' \<or> n = ''app'')"
  by (simp add: is_marker_def)

lemma is_marker_Cons: "p \<noteq> [] \<Longrightarrow> is_marker (n # p) = is_marker p"
  by (simp add: is_marker_def)

lemma find_map_Cons:
  "(\<And>p. p \<in> set ps \<Longrightarrow> p \<noteq> []) \<Longrightarrow>
   List.find is_marker (map ((#) n) ps) = map_option ((#) n) (List.find is_marker ps)"
  by (induction ps) (auto simp: is_marker_Cons)

lemma find_append:
  "List.find P (xs @ ys) = (case List.find P xs of Some x \<Rightarrow> Some x | None \<Rightarrow> List.find P ys)"
  by (induction xs) auto

lemma wf_entries_distinct: "wf_entries es \<Longrightarrow> distinct (map fst es)"
  by (induction es rule: wf_entries.induct) auto

text \<open>The loop over the names of a list of entries, each of which the file system
  resolves below \<open>dir\<close> to the entry itself.\<close>

lemma loop_preorder:
  "wf_entries es \<Longrightarrow>
   (\<And>n t. (n, t) \<in> set es \<Longrightarrow> resolve fs (dir @ [n]) = Inr t) \<Longrightarrow>
   findTargetDirectory_loop fs dir (map fst es) =
     Some (Inr (map_option ((@) dir) (List.find is_marker (preorder_dirs es))))"
proof (induction es arbitrary: dir rule: preorder_dirs.induct)
  case 1
  show ?case by (simp add: loop_Nil)
next
  case (2 n c es)
  have "statSync fs (dir @ [n]) = Inr (Stats False)"
    using "2.prems"(2) [of n "File c"] by (simp add: statSync_def)
  moreover have "findTargetDirectory_loop fs dir (map fst es) =
     Some (Inr (map_option ((@) dir) (List.find is_marker (preorder_dirs es))))"
    using "2.prems" by (intro "2.IH") auto
  ultimately show ?case by (simp add: loop_Cons)
next
  case (3 n cs es)
  have here: "resolve fs (dir @ [n]) = Inr (Dir cs)"
    using "3.prems"(2) [of n "Dir cs"] by simp
  then have st: "statSync fs (dir @ [n]) = Inr (Stats True)"
    by (simp add: statSync_def)
  have rest: "findTargetDirectory_loop fs dir (map fst es) =
     Some (Inr (map_option ((@) dir) (List.find is_marker (preorder_dirs es))))"
    using "3.prems" by (intro "3.IH"(2)) auto
  have sub: "findTargetDirectory_loop fs (dir @ [n]) (map fst cs) =
     Some (Inr (map_option ((@) (dir @ [n])) (List.find is_marker (preorder_dirs cs))))"
  proof (rule "3.IH"(1))
    show "wf_entries cs" using "3.prems"(1) by simp
  next
    fix m u assume "(m, u) \<in> set cs"
    moreover have "distinct (map fst cs)" using "3.prems"(1) by (simp add: wf_entries_distinct)
    ultimately have "map_of cs m = Some u" by simp
    then show "resolve fs ((dir @ [n]) @ [m]) = Inr u"
      by (subst resolve_append) (simp add: here)
  qed
  have dfs: "findTargetDirectory_dfs fs (dir @ [n]) =
     Some (Inr (map_option ((@) (dir @ [n])) (List.find is_marker (preorder_dirs cs))))"
    using here sub by (simp add: findTargetDirectory_dfs_def readdirSync_def)
  have ne: "\<And>p. p \<in> set (preorder_dirs cs) \<Longrightarrow> p \<noteq> []"
    by (rule preorder_dirs_nonempty)
  show ?case
  proof (cases "n = ''src'' \<or> n = ''app''")
    case True
    then show ?thesis by (simp add: loop_Cons st is_marker_single)
  next
    case False
    then show ?thesis
      by (cases "List.find is_marker (preorder_dirs cs)")
         (simp_all add: loop_Cons st dfs rest is_marker_single find_append find_map_Cons [OF ne])
  qed
qed

lemma dfs_preorder:
  assumes "resolve fs root = Inr (Dir es)" and "wf_entries es"
  shows "findTargetDirectory_dfs fs root =
     Some (Inr (map_option ((@) root) (List.find is_marker (preorder_dirs es))))"
proof -
  have "\<And>n t. (n, t) \<in> set es \<Longrightarrow> resolve fs (root @ [n]) = Inr t"
  proof -
    fix n t assume "(n, t) \<in> set es"
    moreover have "distinct (map fst es)" using assms(2) by (rule wf_entries_distinct)
    ultimately have "map_of es n = Some t" by simp
    then show "resolve fs (root @ [n]) = Inr t"
      using assms(1) by (simp add: resolve_append)
  qed
  from loop_preorder [OF assms(2) this] show ?thesis
    using assms(1) by (simp add: findTargetDirectory_dfs_def readdirSync_def)
qed

section \<open>What the recursive search can return\<close>

lemma statSync_isDirectory:
  "statSync fs p = Inr st \<Longrightarrow> isDirectory st \<Longrightarrow> is_dir fs p"
  by (auto simp: statSync_def is_dir_def observe_def split: sum.splits node.splits)

lemma loop_result_aux:
  assumes "findTargetDirectory_loop fs dir names = Some res"
  shows "\<forall>r. res = Inr (Some r) \<longrightarrow> strict_prefix dir r \<and> is_marker r \<and> is_dir fs r"
proof (rule findTargetDirectory_loop.raw_induct
    [where P = "\<lambda>fs dir names res.
       \<forall>r. res = Inr (Some r) \<longrightarrow> strict_prefix dir r \<and> is_marker r \<and> is_dir fs r",
     OF _ assms], goal_cases)
  case (1 self fs dir entries res)
  note IH = 1(1) and eq = 1(2)
  show ?case
  proof (intro allI impI)
    fix r assume res: "res = Inr (Some r)"
    show "strict_prefix dir r \<and> is_marker r \<and> is_dir fs r"
    proof (cases entries)
      case Nil
      with eq res show ?thesis by simp
    next
      case (Cons entry rest)
      show ?thesis
      proof (cases "statSync fs (dir @ [entry])")
        case (Inl e)
        with eq res Cons show ?thesis by simp
      next
        case (Inr st)
        show ?thesis
        proof (cases "isDirectory st")
          case False
          with eq res Cons Inr have "self fs dir rest = Some (Inr (Some r))" by simp
          from IH [OF this] show ?thesis by simp
        next
          case True
          show ?thesis
          proof (cases "entry = ''src'' \<or> entry = ''app''")
            case m: True
            with eq res Cons Inr True have "r = dir @ [entry]" by (auto simp: Let_def)
            with m statSync_isDirectory [OF Inr True] show ?thesis
              by (auto simp: is_marker_def strict_prefix_def)
          next
            case nm: False
            show ?thesis
            proof (cases "readdirSync fs (dir @ [entry])")
              case (Inl e)
              with eq res Cons Inr True nm show ?thesis by (simp add: Let_def)
            next
              case sub: (Inr sub)
              from eq res Cons Inr True nm sub
              obtain y where y: "self fs (dir @ [entry]) sub = Some y"
                and k: "(case y of Inl e \<Rightarrow> Some (Inl e)
                         | Inr None \<Rightarrow> self fs dir rest
                         | Inr (Some result) \<Rightarrow> Some (Inr (Some result))) = Some (Inr (Some r))"
                by (auto simp: Let_def Option.bind_eq_Some_conv)
              have "y = Inr (Some r) \<or> self fs dir rest = Some (Inr (Some r))"
                using k by (cases y) (auto split: option.splits)
              with y consider "self fs (dir @ [entry]) sub = Some (Inr (Some r))"
                | "self fs dir rest = Some (Inr (Some r))"
                by blast
              then show ?thesis
              proof cases
                case 1
                from IH [OF this]
                have "strict_prefix (dir @ [entry]) r \<and> is_marker r \<and> is_dir fs r" by simp
                then show ?thesis
                  by (auto simp: strict_prefix_def prefix_def)
              next
                case 2
                from IH [OF this] show ?thesis by simp
              qed
            qed
          qed
        qed
      qed
    qed
  qed
qed

lemma loop_result:
  "findTargetDirectory_loop fs dir names = Some (Inr (Some r)) \<Longrightarrow>
   strict_prefix dir r \<and> is_marker r \<and> is_dir fs r"
  using loop_result_aux by blast

lemma dfs_result:
  "findTargetDirectory_dfs fs dir = Some (Inr (Some r)) \<Longrightarrow>
   strict_prefix dir r \<and> is_marker r \<and> is_dir fs r"
  by (auto simp: findTargetDirectory_dfs_def split: sum.splits dest: loop_result)

section \<open>Effects of the file-system operations, path by path\<close>

lemma observe_Nil: "observe t [] = (case t of File c \<Rightarrow> Some (IsFile c) | Dir es \<Rightarrow> Some IsDir)"
  by (simp add: observe_def split: node.splits)

lemma observe_File_Cons: "observe (File c) (n # p) = None"
  by (simp add: observe_def)

lemma observe_Dir_Cons:
  "observe (Dir es) (n # p) = (case map_of es n of None \<Rightarrow> None | Some ch \<Rightarrow> observe ch p)"
  by (simp add: observe_def split: option.splits)

lemma observe_Dir_update:
  "observe (Dir (AList.update n d es)) (m # p) =
     (if m = n then observe d p else observe (Dir es) (m # p))"
  by (simp add: observe_def update_conv')

lemma writeFileSync_at:
  "writeFileSync t q c = Inr t' \<Longrightarrow> observe t' q = Some (IsFile c)"
proof (induction t q c arbitrary: t' rule: writeFileSync.induct)
  case (4 es n p data)
  then show ?case
    by (auto simp: observe_Dir_update observe_Nil split: option.splits if_splits sum.splits)
qed (auto simp: observe_Nil)

lemma writeFileSync_frame:
  "writeFileSync t q c = Inr t' \<Longrightarrow> p \<noteq> q \<Longrightarrow> observe t' p = observe t p"
proof (induction t q c arbitrary: t' p rule: writeFileSync.induct)
  case (1 old data)
  then show ?case by (cases p) (auto simp: observe_File_Cons)
next
  case (4 es n q data)
  show ?case
  proof (cases p)
    case Nil
    with 4 show ?thesis
      by (auto simp: observe_Nil split: option.splits if_splits sum.splits)
  next
    case (Cons m p')
    show ?thesis
    proof (cases "map_of es n")
      case None
      with 4 Cons show ?thesis
        by (cases p') (auto simp: observe_Dir_Cons update_conv' observe_File_Cons observe_Nil
            split: if_splits)
    next
      case (Some ch)
      with "4.prems" obtain ch' where w: "writeFileSync ch q data = Inr ch'"
        and t': "t' = Dir (AList.update n ch' es)"
        by (auto split: sum.splits)
      show ?thesis
      proof (cases "m = n")
        case True
        with Cons "4.prems"(2) have "p' \<noteq> q" by simp
        from "4.IH" [OF Some w this] show ?thesis
          using True Cons t' Some by (simp add: observe_Dir_Cons update_conv')
      next
        case False
        then show ?thesis using Cons t' by (simp add: observe_Dir_update)
      qed
    qed
  qed
qed auto

lemma mkdirSync_recursive_at:
  "mkdirSync_recursive t q = Inr t' \<Longrightarrow> observe t' q = Some IsDir"
proof (induction t q arbitrary: t' rule: mkdirSync_recursive.induct)
  case (4 es n p)
  then show ?case
    by (auto simp: observe_Dir_update split: sum.splits)
qed (auto simp: observe_Nil)

lemma mkdirSync_recursive_frame:
  "mkdirSync_recursive t q = Inr t' \<Longrightarrow> observe t p \<noteq> None \<or> \<not> prefix p q \<Longrightarrow>
   observe t' p = observe t p"
proof (induction t q arbitrary: t' p rule: mkdirSync_recursive.induct)
  case (4 es n q)
  let ?ch = "case map_of es n of None \<Rightarrow> Dir [] | Some ch \<Rightarrow> ch"
  from "4.prems"(1) obtain d where d: "mkdirSync_recursive ?ch q = Inr d"
    and t': "t' = Dir (AList.update n d es)"
    by (auto split: sum.splits)
  show ?case
  proof (cases p)
    case Nil
    then show ?thesis using t' by (simp add: observe_Nil)
  next
    case (Cons m p')
    show ?thesis
    proof (cases "m = n")
      case False
      then show ?thesis using Cons t' by (simp add: observe_Dir_update)
    next
      case True
      have "observe ?ch p' \<noteq> None \<or> \<not> prefix p' q"
        using "4.prems"(2) Cons True
        by (auto simp: observe_Dir_Cons split: option.splits)
      from "4.IH" [OF d this] have eq: "observe d p' = observe ?ch p'" .
      have "observe (Dir []) p' = None \<or> p' = []"
        by (cases p') (simp_all add: observe_Dir_Cons)
      moreover have "map_of es n = None \<Longrightarrow> p' = [] \<Longrightarrow> False"
        using "4.prems"(2) Cons True by (simp add: observe_Dir_Cons)
      ultimately show ?thesis
        using Cons True t' eq
        by (auto simp: observe_Dir_Cons update_conv' split: option.splits)
    qed
  qed
qed auto

section \<open>Effects of writing the hook files\<close>

lemma hookFile_inj: "hookFile hp n = hookFile hp m \<longleftrightarrow> n = m"
  by (simp add: hookFile_def)

lemma mkdirSync_recursive_prefix:
  "mkdirSync_recursive t q = Inr t' \<Longrightarrow> prefix p q \<Longrightarrow> observe t' p = Some IsDir"
proof (induction t q arbitrary: t' p rule: mkdirSync_recursive.induct)
  case (4 es n q)
  then show ?case
    by (cases p) (auto simp: observe_Nil observe_Dir_update split: sum.splits)
qed (auto simp: observe_Nil)

lemma writeHooks_frame:
  "writeHooks t hp hooks = (t', r) \<Longrightarrow> p \<notin> set (map (hookFile hp) (map fst hooks)) \<Longrightarrow>
   observe t' p = observe t p"
proof (induction t hp hooks rule: writeHooks.induct)
  case (2 t hp hookName hookContent rest)
  show ?case
  proof (cases "writeFileSync t (hookFile hp hookName) hookContent")
    case (Inl e)
    with "2.prems" show ?thesis by simp
  next
    case (Inr t1)
    from "2.prems"(2) have ne: "p \<noteq> hookFile hp hookName"
      and nin: "p \<notin> set (map (hookFile hp) (map fst rest))" by auto
    from "2.prems"(1) Inr have "writeHooks t1 hp rest = (t', r)" by simp
    from "2.IH" [OF Inr this nin] writeFileSync_frame [OF Inr ne]
    show ?thesis by simp
  qed
qed simp

lemma writeHooks_content:
  "writeHooks t hp hooks = (t', None) \<Longrightarrow> distinct (map fst hooks) \<Longrightarrow>
   (n, c) \<in> set hooks \<Longrightarrow> observe t' (hookFile hp n) = Some (IsFile c)"
proof (induction t hp hooks rule: writeHooks.induct)
  case (2 t hp hookName hookContent rest)
  from "2.prems"(1) obtain t1 where
    w: "writeFileSync t (hookFile hp hookName) hookContent = Inr t1"
    and r: "writeHooks t1 hp rest = (t', None)"
    by (auto split: sum.splits)
  show ?case
  proof (cases "(n, c) \<in> set rest")
    case True
    with "2.IH" [OF w r] "2.prems"(2) show ?thesis by simp
  next
    case False
    with "2.prems"(3) have eq: "n = hookName" "c = hookContent" by auto
    have "hookName \<notin> set (map fst rest)" using "2.prems"(2) by simp
    then have "hookFile hp hookName \<notin> set (map (hookFile hp) (map fst rest))"
      by (force simp: hookFile_inj)
    from writeHooks_frame [OF r this] writeFileSync_at [OF w] eq
    show ?thesis by simp
  qed
qed simp

lemma hookFile_not_prefix: "\<not> prefix (hookFile hp n) hp"
  by (simp add: hookFile_def prefix_def)

lemma prefix_not_hookFile:
  "prefix p hp \<Longrightarrow> p \<notin> set (map (hookFile hp) (map fst hooks))"
  using hookFile_not_prefix [of hp] by (auto simp del: prefix_snoc)

lemma writeHooksFolder_cases:
  assumes "writeHooksFolder hooks t target = (t', r)"
  obtains (mkdir_failed) e where "\<not> existsSync t (target @ [''hooks''])"
      and "mkdirSync_recursive t (target @ [''hooks'']) = Inl e" and "t' = t" and "r = Some e"
    | (created) t1 where "\<not> existsSync t (target @ [''hooks''])"
      and "mkdirSync_recursive t (target @ [''hooks'']) = Inr t1"
      and "writeHooks t1 (target @ [''hooks'']) hooks = (t', r)"
    | (existed) "existsSync t (target @ [''hooks''])"
      and "writeHooks t (target @ [''hooks'']) hooks = (t', r)"
  using assms
  by (auto simp: writeHooksFolder_def Let_def split: if_splits sum.splits)

lemma writeHooksFolder_frame:
  assumes "writeHooksFolder hooks t target = (t', r)"
    and "p \<notin> set (map (hookFile (target @ [''hooks''])) (map fst hooks))"
    and "observe t p \<noteq> None \<or> \<not> prefix p (target @ [''hooks''])"
  shows "observe t' p = observe t p"
  using assms(1)
proof (cases rule: writeHooksFolder_cases)
  case (mkdir_failed e)
  then show ?thesis by simp
next
  case (created t1)
  from writeHooks_frame [OF created(3) assms(2)]
    mkdirSync_recursive_frame [OF created(2) assms(3)]
  show ?thesis by simp
next
  case existed
  from writeHooks_frame [OF existed(2) assms(2)] show ?thesis .
qed

lemma writeHooksFolder_parents:
  assumes "writeHooksFolder hooks t target = (t', r)"
    and "prefix p (target @ [''hooks''])" and "observe t p = None"
  shows "observe t' p = None \<or> observe t' p = Some IsDir"
  using assms(1)
proof (cases rule: writeHooksFolder_cases)
  case (mkdir_failed e)
  with assms(3) show ?thesis by simp
next
  case (created t1)
  have "p \<notin> set (map (hookFile (target @ [''hooks''])) (map fst hooks))"
    using assms(2) by (rule prefix_not_hookFile)
  from writeHooks_frame [OF created(3) this]
    mkdirSync_recursive_prefix [OF created(2) assms(2)]
  show ?thesis by simp
next
  case existed
  have "p \<notin> set (map (hookFile (target @ [''hooks''])) (map fst hooks))"
    using assms(2) by (rule prefix_not_hookFile)
  from writeHooks_frame [OF existed(2) this] assms(3) show ?thesis by simp
qed

lemma writeHooksFolder_content:
  assumes "writeHooksFolder hooks t target = (t', None)" and "distinct (map fst hooks)"
    and "(n, c) \<in> set hooks"
  shows "observe t' (hookFile (target @ [''hooks'']) n) = Some (IsFile c)"
  using assms(1)
proof (cases rule: writeHooksFolder_cases)
  case (mkdir_failed e)
  then show ?thesis by simp
next
  case (created t1)
  from writeHooks_content [OF created(3) assms(2,3)] show ?thesis .
next
  case existed
  from writeHooks_content [OF existed(2) assms(2,3)] show ?thesis .
qed

section \<open>Directories named src or app, and the three checks\<close>

lemma preorder_single:
  "map_of es n = Some (Dir cs) \<Longrightarrow> [n] \<in> set (preorder_dirs es)"
  by (induction es rule: preorder_dirs.induct) (auto split: if_splits)

lemma preorder_nested:
  "map_of es n = Some (Dir cs) \<Longrightarrow> q \<in> set (preorder_dirs cs) \<Longrightarrow>
   n # q \<in> set (preorder_dirs es)"
  by (induction es rule: preorder_dirs.induct) (auto split: if_splits)

lemma preorder_head: "q \<in> set (preorder_dirs es) \<Longrightarrow> hd q \<in> set (map fst es)"
  by (induction es rule: preorder_dirs.induct) auto

lemma wf_preorder_single:
  "wf_entries es \<Longrightarrow> [n] \<in> set (preorder_dirs es) \<Longrightarrow> \<exists>cs. map_of es n = Some (Dir cs)"
proof (induction es rule: preorder_dirs.induct)
  case 1
  then show ?case by simp
next
  case (2 m c es)
  then have "n \<in> set (map fst es)" using preorder_head [of "[n]" es] by simp
  with 2 show ?case by auto
next
  case (3 m cs es)
  show ?case
  proof (cases "n = m")
    case True
    then show ?thesis by simp
  next
    case False
    with "3.prems" have in_es: "[n] \<in> set (preorder_dirs es)" by auto
    with 3 False show ?thesis by auto
  qed
qed

lemma is_dir_child:
  "resolve fs root = Inr (Dir es) \<Longrightarrow>
   is_dir fs (root @ [n]) = (\<exists>cs. map_of es n = Some (Dir cs))"
  by (auto simp: is_dir_def observe_def resolve_append split: option.splits node.splits)

lemma is_dir_grandchild:
  "resolve fs root = Inr (Dir es) \<Longrightarrow>
   is_dir fs (root @ [n, m]) =
     (\<exists>cs ds. map_of es n = Some (Dir cs) \<and> map_of cs m = Some (Dir ds))"
proof (cases "map_of es n")
  case None
  moreover assume "resolve fs root = Inr (Dir es)"
  ultimately show ?thesis
    by (simp add: is_dir_def observe_def resolve_append)
next
  case (Some ch)
  assume r: "resolve fs root = Inr (Dir es)"
  show ?thesis
  proof (cases ch)
    case (File c)
    with Some r show ?thesis by (simp add: is_dir_def observe_def resolve_append)
  next
    case (Dir cs)
    with Some r show ?thesis
      by (auto simp: is_dir_def observe_def resolve_append split: option.splits node.splits)
  qed
qed

lemma markers_mem: "p \<in> set (markers es) \<longleftrightarrow> p \<in> set (preorder_dirs es) \<and> is_marker p"
  by (simp add: markers_def)

lemma no_markers_find: "markers es = [] \<Longrightarrow> List.find is_marker (preorder_dirs es) = None"
  by (simp add: markers_def find_None_iff filter_empty_conv)

lemma one_marker_find: "markers es = [p] \<Longrightarrow> List.find is_marker (preorder_dirs es) = Some p"
proof -
  assume a: "markers es = [p]"
  have "\<And>xs. filter is_marker xs = [p] \<Longrightarrow> List.find is_marker xs = Some p"
  proof -
    fix xs show "filter is_marker xs = [p] \<Longrightarrow> List.find is_marker xs = Some p"
      by (induction xs) (auto split: if_splits)
  qed
  with a show ?thesis by (simp add: markers_def)
qed

text \<open>The three checks, read off the entries of the root directory.\<close>

lemma findTargetDirectory_none:
  assumes "resolve fs root = Inr (Dir es)" and "markers es = []"
  shows "findTargetDirectory fs root = Inr None"
proof -
  have "\<not> is_dir fs (root @ [n])" if "n = ''src'' \<or> n = ''app''" for n
  proof
    assume "is_dir fs (root @ [n])"
    then obtain cs where "map_of es n = Some (Dir cs)"
      using is_dir_child [OF assms(1)] by auto
    then have "[n] \<in> set (preorder_dirs es)" by (rule preorder_single)
    moreover have "is_marker [n]" using that by (auto simp: is_marker_def)
    ultimately have "[n] \<in> set (markers es)" by (simp add: markers_mem)
    with assms(2) show False by simp
  qed
  then show ?thesis by (simp add: findTargetDirectory_eq)
qed

lemma findTargetDirectory_one:
  assumes "resolve fs root = Inr (Dir es)" and "wf_entries es" and "markers es = [p]"
  shows "findTargetDirectory fs root = Inr (if length p = 1 then Some (root @ p) else None)"
proof -
  have p: "p \<in> set (preorder_dirs es)" "is_marker p"
    using assms(3) markers_mem [of p es] by simp_all
  have only: "q = p" if "q \<in> set (preorder_dirs es)" "is_marker q" for q
    using that assms(3) markers_mem [of q es] by simp
  have top: "p = [n]" if "is_dir fs (root @ [n])" "n = ''src'' \<or> n = ''app''" for n
  proof -
    from that(1) obtain cs where "map_of es n = Some (Dir cs)"
      using is_dir_child [OF assms(1)] by auto
    then have "[n] \<in> set (preorder_dirs es)" by (rule preorder_single)
    moreover have "is_marker [n]" using that(2) by (auto simp: is_marker_def)
    ultimately show ?thesis using only by simp
  qed
  have nested: "\<not> is_dir fs (root @ [''src'', ''app''])" if "p = [''src'']"
  proof
    assume "is_dir fs (root @ [''src'', ''app''])"
    then obtain cs ds where "map_of es ''src'' = Some (Dir cs)" "map_of cs ''app'' = Some (Dir ds)"
      using is_dir_grandchild [OF assms(1)] by auto
    then have "[''src'', ''app''] \<in> set (preorder_dirs es)"
      by (auto intro: preorder_nested preorder_single)
    moreover have "is_marker [''src'', ''app'']" by (simp add: is_marker_def)
    ultimately have "[''src'', ''app''] = p" using only by simp
    with that show False by simp
  qed
  show ?thesis
  proof (cases "length p = 1")
    case True
    then obtain n where n: "p = [n]" by (cases p) auto
    with p(2) have mk: "n = ''src'' \<or> n = ''app''" by (simp add: is_marker_def)
    from wf_preorder_single [OF assms(2)] p(1) n
    have d: "is_dir fs (root @ [n])" using is_dir_child [OF assms(1)] by auto
    show ?thesis
    proof (cases "n = ''src''")
      case True
      with d nested n show ?thesis by (simp add: findTargetDirectory_eq)
    next
      case False
      with mk have app: "n = ''app''" by simp
      have "\<not> is_dir fs (root @ [''src''])" using top [of "''src''"] n app by auto
      with d app n show ?thesis by (simp add: findTargetDirectory_eq)
    qed
  next
    case False
    have "\<not> is_dir fs (root @ [''src''])" using top [of "''src''"] False by auto
    moreover have "\<not> is_dir fs (root @ [''app''])" using top [of "''app''"] False by auto
    ultimately show ?thesis using False by (simp add: findTargetDirectory_eq)
  qed
qed

section \<open>The claims about resolution\<close>

text \<open>
  Claim C1. The newest script's \<^verbatim>\<open>findTargetDirectory\<close> never raises and decides by
  three checks in a fixed order: when root/src is a directory the answer is root/src/app
  if that is a directory too and root/src otherwise; else when root/app is a directory
  the answer is root/app; else nothing is found. So src/app wins over src alone, and
  anything in the src family wins over a sibling app.
\<close>

theorem policy_B_precedence:
  "findTargetDirectory fs root =
     Inr (if is_dir fs (root @ [''src''])
          then (if is_dir fs (root @ [''src'', ''app''])
                then Some (root @ [''src'', ''app'']) else Some (root @ [''src'']))
          else if is_dir fs (root @ [''app'']) then Some (root @ [''app''])
          else None)"
  by (simp add: findTargetDirectory_def existsAndIsDirectory_is_dir Let_def)

theorem policy_B_precedence_witness:
  "findTargetDirectory proj_disk [''proj''] = Inr (Some [''proj'', ''src'', ''app'']) \<and>
   findTargetDirectory sibling_disk [''proj''] = Inr (Some [''proj'', ''src''])"
  using policy_B_precedence [of proj_disk "[''proj'']"]
    policy_B_precedence [of sibling_disk "[''proj'']"]
  by (simp add: is_dir_def observe_def proj_disk_def proj_entries_def sibling_disk_def)

text \<open>
  Claim C3. On a directory tree (no directory lists a name twice) the recursive search
  started at a directory \<open>root\<close> returns, with \<open>root\<close> prepended, the first directory
  in pre-order below \<open>root\<close> whose name is exactly src or app, and the not-found value
  when the pre-order enumeration holds no such directory. The editor command's
  \<^verbatim>\<open>findHooksDirectory\<close> is the same search.
\<close>

theorem policy_A_preorder_search:
  assumes "resolve fs root = Inr (Dir es)" and "wf_entries es"
  shows "findTargetDirectory_dfs fs root =
           Some (Inr (map_option ((@) root) (List.find is_marker (preorder_dirs es)))) \<and>
         findHooksDirectory fs root =
           Some (Inr (map_option ((@) root) (List.find is_marker (preorder_dirs es))))"
  using dfs_preorder [OF assms] by (simp add: findHooksDirectory_def)

theorem policy_A_preorder_search_witness:
  "resolve proj_disk [''proj''] = Inr (Dir proj_entries) \<and> wf_entries proj_entries \<and>
   findTargetDirectory_dfs proj_disk [''proj''] = Some (Inr (Some [''proj'', ''src''])) \<and>
   findHooksDirectory proj_disk [''proj''] = Some (Inr (Some [''proj'', ''src'']))"
proof -
  have r: "resolve proj_disk [''proj''] = Inr (Dir proj_entries)"
    by (simp add: proj_disk_def)
  have w: "wf_entries proj_entries" by (simp add: proj_entries_def)
  from policy_A_preorder_search [OF r w] r w show ?thesis
    by (simp add: proj_entries_def is_marker_def)
qed

text \<open>
  Claim C9. The recursive search returns on every tree and from every starting path: the
  file system is a finite tree, and each recursive call descends into a child.
\<close>

theorem policy_A_terminates:
  "(\<exists>r. findTargetDirectory_dfs fs dir = Some r) \<and> (\<exists>r. findHooksDirectory fs dir = Some r)"
  by (simp add: findHooksDirectory_def dfs_total)

theorem policy_A_terminates_witness:
  "(\<exists>r. findTargetDirectory_dfs mono_disk [] = Some r) \<and>
   (\<exists>r. findHooksDirectory mono_disk [] = Some r)"
  using policy_A_terminates [of mono_disk "[]"] by simp

text \<open>
  Claim C10. Whatever either search returns as found lies strictly below the directory
  it started from, is a directory, and has src or app as its last component; the three
  checks can only return root/src, root/src/app or root/app. The starting directory is
  never returned, whatever its own name.
\<close>

theorem resolved_target_below_root:
  "(findTargetDirectory_dfs fs root = Some (Inr (Some r)) \<longrightarrow>
      strict_prefix root r \<and> (last r = ''src'' \<or> last r = ''app'') \<and> is_dir fs r) \<and>
   (findHooksDirectory fs root = Some (Inr (Some r)) \<longrightarrow>
      strict_prefix root r \<and> (last r = ''src'' \<or> last r = ''app'') \<and> is_dir fs r) \<and>
   (findTargetDirectory fs root = Inr (Some r) \<longrightarrow>
      (r = root @ [''src''] \<or> r = root @ [''src'', ''app''] \<or> r = root @ [''app'']) \<and>
      strict_prefix root r \<and> (last r = ''src'' \<or> last r = ''app'') \<and> is_dir fs r)"
proof -
  have a: "strict_prefix root r \<and> (last r = ''src'' \<or> last r = ''app'') \<and> is_dir fs r"
    if "findTargetDirectory_dfs fs root = Some (Inr (Some r))"
    using dfs_result [OF that] by (simp add: is_marker_def)
  have b: "(r = root @ [''src''] \<or> r = root @ [''src'', ''app''] \<or> r = root @ [''app'']) \<and>
      strict_prefix root r \<and> (last r = ''src'' \<or> last r = ''app'') \<and> is_dir fs r"
    if "findTargetDirectory fs root = Inr (Some r)"
    using that by (auto simp: findTargetDirectory_eq strict_prefix_def split: if_splits)
  from a b show ?thesis by (auto simp: findHooksDirectory_def)
qed

theorem resolved_target_below_root_witness:
  "findTargetDirectory_dfs nested_disk [''src''] = Some (Inr (Some [''src'', ''app''])) \<and>
   findHooksDirectory nested_disk [''src''] = Some (Inr (Some [''src'', ''app''])) \<and>
   findTargetDirectory nested_disk [''src''] = Inr (Some [''src'', ''app'']) \<and>
   strict_prefix [''src''] [''src'', ''app''] \<and> is_dir nested_disk [''src'', ''app'']"
proof -
  have a: "findTargetDirectory_dfs nested_disk [''src''] = Some (Inr (Some [''src'', ''app'']))"
    by (simp add: findTargetDirectory_dfs_def readdirSync_def nested_disk_def loop_Cons
        statSync_def)
  have b: "findTargetDirectory nested_disk [''src''] = Inr (Some [''src'', ''app''])"
    by (simp add: findTargetDirectory_eq is_dir_def observe_def nested_disk_def)
  from a b resolved_target_below_root [of nested_disk "[''src'']" "[''src'', ''app'']"]
  show ?thesis by (simp add: findHooksDirectory_def)
qed

section \<open>The entry points, case by case\<close>

lemma createHooksFolder_cwd_error:
  "process_cwd w = Inl e \<Longrightarrow> createHooksFolder hooks w = (Threw e, w)"
  by (simp add: createHooksFolder_def)

lemma createHooksFolder_not_found:
  "process_cwd w = Inr root \<Longrightarrow> findTargetDirectory (disk w) root = Inr None \<Longrightarrow>
   createHooksFolder hooks w =
     (Exited 1,
      w\<lparr>stderr := stderr w @
        [''No src, src/app, or app folder found in the current directory.'']\<rparr>)"
  by (simp add: createHooksFolder_def)

lemma createHooksFolder_write_error:
  "process_cwd w = Inr root \<Longrightarrow> findTargetDirectory (disk w) root = Inr (Some target) \<Longrightarrow>
   writeHooksFolder hooks (disk w) target = (t', Some e) \<Longrightarrow>
   createHooksFolder hooks w = (Threw e, w\<lparr>disk := t'\<rparr>)"
  by (simp add: createHooksFolder_def)

lemma createHooksFolder_dfs_cwd_error:
  "process_cwd w = Inl e \<Longrightarrow> createHooksFolder_dfs hooks w = Some (Threw e, w)"
  by (simp add: createHooksFolder_dfs_def)

lemma createHooksFolder_dfs_not_found:
  "process_cwd w = Inr root \<Longrightarrow> findTargetDirectory_dfs (disk w) root = Some (Inr None) \<Longrightarrow>
   createHooksFolder_dfs hooks w =
     Some (Exited 1,
       w\<lparr>stderr := stderr w @
         [''No src or app folder found in the current directory or its subdirectories.'']\<rparr>)"
  by (simp add: createHooksFolder_dfs_def)

lemma createHooksFolder_dfs_write_error:
  "process_cwd w = Inr root \<Longrightarrow>
   findTargetDirectory_dfs (disk w) root = Some (Inr (Some target)) \<Longrightarrow>
   writeHooksFolder hooks (disk w) target = (t', Some e) \<Longrightarrow>
   createHooksFolder_dfs hooks w = Some (Threw e, w\<lparr>disk := t'\<rparr>)"
  by (simp add: createHooksFolder_dfs_def)

lemma createHooksFolder_vscode_not_found:
  "workspaceFolders ed = Some (root # others) \<Longrightarrow>
   findHooksDirectory (edisk ed) root = Some (Inr None) \<Longrightarrow>
   createHooksFolder_vscode hooks ed =
     Some (Returned,
       ed\<lparr>errorMessages := errorMessages ed @
         [''No src or app folder found in the workspace.'']\<rparr>)"
  by (simp add: createHooksFolder_vscode_def)

lemma createHooksFolder_vscode_undefined:
  "workspaceFolders ed = None \<Longrightarrow>
   createHooksFolder_vscode hooks ed =
     Some (Returned, ed\<lparr>errorMessages := errorMessages ed @ [''No workspace is open.'']\<rparr>)"
  by (simp add: createHooksFolder_vscode_def)

lemma createHooksFolder_vscode_empty:
  "workspaceFolders ed = Some [] \<Longrightarrow>
   createHooksFolder_vscode hooks ed = Some (Threw TypeError, ed)"
  by (simp add: createHooksFolder_vscode_def)

section \<open>The claims about trees with one source folder or none\<close>

text \<open>
  Claim C2, as stated: on a tree with exactly one folder called src or app, at any
  depth, both the recursive search and the three checks return that folder. The three
  checks look at the children of the root (and at src/app) only: in a repository whose
  single src folder is packages/web/src they find nothing.
\<close>

theorem single_marker_counterexample:
  "resolve mono_disk [] = Inr (Dir mono_entries) \<and> wf_entries mono_entries \<and>
   markers mono_entries = [[''packages'', ''web'', ''src'']] \<and>
   findTargetDirectory mono_disk [] = Inr None \<and>
   findTargetDirectory mono_disk [] \<noteq> Inr (Some ([] @ [''packages'', ''web'', ''src'']))"
  by (simp add: mono_disk_def mono_entries_def markers_def is_marker_def
      findTargetDirectory_eq is_dir_def observe_def)

text \<open>
  Claim C2, amended: on a tree with exactly one folder called src or app, at any depth,
  the recursive search returns that folder; the three checks return it when it is an
  immediate child of the root and report not-found otherwise.
\<close>

theorem single_marker_resolution:
  assumes "resolve t root = Inr (Dir es)" and "wf_entries es" and "markers es = [p]"
  shows "findTargetDirectory_dfs t root = Some (Inr (Some (root @ p))) \<and>
         findHooksDirectory t root = Some (Inr (Some (root @ p))) \<and>
         findTargetDirectory t root = Inr (if length p = 1 then Some (root @ p) else None)"
  using dfs_preorder [OF assms(1,2)] one_marker_find [OF assms(3)]
    findTargetDirectory_one [OF assms]
  by (simp add: findHooksDirectory_def)

theorem single_marker_resolution_witness:
  "resolve mono_disk [] = Inr (Dir mono_entries) \<and> wf_entries mono_entries \<and>
   markers mono_entries = [[''packages'', ''web'', ''src'']] \<and>
   findTargetDirectory_dfs mono_disk [] = Some (Inr (Some [''packages'', ''web'', ''src''])) \<and>
   findTargetDirectory mono_disk [] = Inr None \<and>
   resolve blocked_disk [] = Inr (Dir [(''src'', Dir [(''hooks'', File ''notes'')])]) \<and>
   markers [(''src'', Dir [(''hooks'', File ''notes'')])] = [[''src'']] \<and>
   findTargetDirectory blocked_disk [] = Inr (Some [''src''])"
proof -
  have r: "resolve mono_disk [] = Inr (Dir mono_entries)" by (simp add: mono_disk_def)
  have w: "wf_entries mono_entries" by (simp add: mono_entries_def)
  have m: "markers mono_entries = [[''packages'', ''web'', ''src'']]"
    by (simp add: mono_entries_def markers_def is_marker_def)
  have r2: "resolve blocked_disk [] = Inr (Dir [(''src'', Dir [(''hooks'', File ''notes'')])])"
    by (simp add: blocked_disk_def)
  have w2: "wf_entries [(''src'', Dir [(''hooks'', File ''notes'')])]" by simp
  have m2: "markers [(''src'', Dir [(''hooks'', File ''notes'')])] = [[''src'']]"
    by (simp add: markers_def is_marker_def)
  from single_marker_resolution [OF r w m] single_marker_resolution [OF r2 w2 m2] r w m r2 m2
  show ?thesis
    by simp
qed

text \<open>
  Claim C4. When no directory below the starting directory is called src or app, both
  searches report not-found; each command-line script then appends one explanatory line
  to standard error and ends the process with status 1, and the editor command shows one
  error message and returns. In all three the file system is left as it was.
\<close>

theorem no_source_folder_not_found:
  assumes "resolve t root = Inr (Dir es)" and "wf_entries es" and "markers es = []"
  shows "findTargetDirectory t root = Inr None \<and>
         findTargetDirectory_dfs t root = Some (Inr None) \<and>
         findHooksDirectory t root = Some (Inr None) \<and>
         createHooksFolder hooks \<lparr>disk = t, cwd = root, stdout = out, stderr = err\<rparr> =
           (Exited 1,
            \<lparr>disk = t, cwd = root, stdout = out,
             stderr = err @
               [''No src, src/app, or app folder found in the current directory.'']\<rparr>) \<and>
         createHooksFolder_dfs hooks \<lparr>disk = t, cwd = root, stdout = out, stderr = err\<rparr> =
           Some (Exited 1,
            \<lparr>disk = t, cwd = root, stdout = out,
             stderr = err @
               [''No src or app folder found in the current directory or its subdirectories.'']\<rparr>) \<and>
         createHooksFolder_vscode hooks
            \<lparr>edisk = t, workspaceFolders = Some (root # others),
             errorMessages = shown, informationMessages = infos\<rparr> =
           Some (Returned,
            \<lparr>edisk = t, workspaceFolders = Some (root # others),
             errorMessages = shown @ [''No src or app folder found in the workspace.''],
             informationMessages = infos\<rparr>)"
proof -
  have b: "findTargetDirectory t root = Inr None"
    using assms(1,3) by (rule findTargetDirectory_none)
  have a: "findTargetDirectory_dfs t root = Some (Inr None)"
    using dfs_preorder [OF assms(1,2)] no_markers_find [OF assms(3)] by simp
  then have h: "findHooksDirectory t root = Some (Inr None)"
    by (simp add: findHooksDirectory_def)
  have c: "process_cwd \<lparr>disk = t, cwd = root, stdout = out, stderr = err\<rparr> = Inr root"
    using assms(1) by (simp add: process_cwd_def is_dir_def observe_def)
  show ?thesis
    using a b h
    by (simp add: createHooksFolder_not_found [OF c] createHooksFolder_dfs_not_found [OF c]
        createHooksFolder_vscode_not_found)
qed

theorem no_source_folder_not_found_witness:
  "resolve empty_disk [''empty''] = Inr (Dir empty_entries) \<and> wf_entries empty_entries \<and>
   markers empty_entries = [] \<and>
   createHooksFolder sample_hooks (at_root empty_disk [''empty'']) =
     (Exited 1,
      \<lparr>disk = empty_disk, cwd = [''empty''], stdout = [],
       stderr = [''No src, src/app, or app folder found in the current directory.'']\<rparr>) \<and>
   createHooksFolder_dfs sample_hooks (at_root empty_disk [''empty'']) =
     Some (Exited 1,
      \<lparr>disk = empty_disk, cwd = [''empty''], stdout = [],
       stderr =
         [''No src or app folder found in the current directory or its subdirectories.'']\<rparr>)"
proof -
  have r: "resolve empty_disk [''empty''] = Inr (Dir empty_entries)"
    by (simp add: empty_disk_def)
  have w: "wf_entries empty_entries" by (simp add: empty_entries_def)
  have m: "markers empty_entries = []"
    by (simp add: empty_entries_def markers_def is_marker_def)
  from no_source_folder_not_found [OF r w m, of sample_hooks "[]" "[]"] r w m
  show ?thesis by (simp add: at_root_def)
qed

section \<open>The claims about writing\<close>

text \<open>
  Claim C5. When the writer succeeds for a target and a table of K entries with K
  different names, the K paths target/hooks/<hookName>.ts are pairwise different, each of
  them holds afterwards a regular file whose content is exactly the table's value for
  that name, and no other entry of target/hooks is created or changed.
\<close>

theorem hook_files_written:
  assumes "writeHooksFolder hooks t target = (t', None)" and "distinct (map fst hooks)"
  shows "length (map (hookFile (target @ [''hooks''])) (map fst hooks)) = length hooks \<and>
         distinct (map (hookFile (target @ [''hooks''])) (map fst hooks)) \<and>
         (\<forall>(hookName, hookContent) \<in> set hooks.
            hookFile (target @ [''hooks'']) hookName = target @ [''hooks'', hookName @ ''.ts''] \<and>
            observe t' (target @ [''hooks'', hookName @ ''.ts'']) = Some (IsFile hookContent)) \<and>
         (\<forall>m. target @ [''hooks'', m] \<notin> set (map (hookFile (target @ [''hooks''])) (map fst hooks))
            \<longrightarrow> observe t' (target @ [''hooks'', m]) = observe t (target @ [''hooks'', m]))"
proof (intro conjI)
  show "length (map (hookFile (target @ [''hooks''])) (map fst hooks)) = length hooks"
    by simp
  show "distinct (map (hookFile (target @ [''hooks''])) (map fst hooks))"
    using assms(2) by (simp add: distinct_map inj_on_def hookFile_inj)
  show "\<forall>(hookName, hookContent) \<in> set hooks.
          hookFile (target @ [''hooks'']) hookName = target @ [''hooks'', hookName @ ''.ts''] \<and>
          observe t' (target @ [''hooks'', hookName @ ''.ts'']) = Some (IsFile hookContent)"
  proof (clarify, intro conjI)
    fix n c assume "(n, c) \<in> set hooks"
    show eq: "hookFile (target @ [''hooks'']) n = target @ [''hooks'', n @ ''.ts'']"
      by (simp add: hookFile_def)
    from writeHooksFolder_content [OF assms \<open>(n, c) \<in> set hooks\<close>]
    show "observe t' (target @ [''hooks'', n @ ''.ts'']) = Some (IsFile c)"
      by (simp add: eq)
  qed
  show "\<forall>m. target @ [''hooks'', m] \<notin> set (map (hookFile (target @ [''hooks''])) (map fst hooks))
          \<longrightarrow> observe t' (target @ [''hooks'', m]) = observe t (target @ [''hooks'', m])"
  proof (intro allI impI)
    fix m
    assume nin: "target @ [''hooks'', m] \<notin> set (map (hookFile (target @ [''hooks''])) (map fst hooks))"
    have "\<not> prefix (target @ [''hooks'', m]) (target @ [''hooks''])"
      by (simp add: prefix_def)
    then show "observe t' (target @ [''hooks'', m]) = observe t (target @ [''hooks'', m])"
      using writeHooksFolder_frame [OF assms(1) nin] by blast
  qed
qed

theorem hook_files_written_witness:
  "writeHooksFolder sample_hooks proj_disk [''proj'', ''src'', ''app''] = (proj_disk_after, None) \<and>
   writeHooksFolder sample_hooks stamped_disk [''src''] = (stamped_disk_after, None) \<and>
   distinct (map fst sample_hooks) \<and>
   observe proj_disk_after [''proj'', ''src'', ''app'', ''hooks'', ''useDebounce.ts''] =
     Some (IsFile ''export function useDebounce() {}'') \<and>
   observe proj_disk_after [''proj'', ''src'', ''app'', ''hooks'', ''useThrottle.ts''] =
     Some (IsFile ''export function useThrottle() {}'') \<and>
   observe stamped_disk [''src'', ''hooks'', ''useDebounce.ts''] = Some (IsFile ''old'') \<and>
   observe stamped_disk_after [''src'', ''hooks'', ''useDebounce.ts''] =
     Some (IsFile ''export function useDebounce() {}'') \<and>
   [''src''] @ [''hooks'', ''useMine.ts''] \<notin>
     set (map (hookFile ([''src''] @ [''hooks''])) (map fst sample_hooks)) \<and>
   observe stamped_disk_after [''src'', ''hooks'', ''useMine.ts''] =
     observe stamped_disk [''src'', ''hooks'', ''useMine.ts'']"
proof -
  have w1: "writeHooksFolder sample_hooks proj_disk [''proj'', ''src'', ''app''] =
      (proj_disk_after, None)"
    by (simp add: writeHooksFolder_def existsSync_def proj_disk_def proj_entries_def
        proj_disk_after_def sample_hooks_def hookFile_def)
  have w2: "writeHooksFolder sample_hooks stamped_disk [''src''] = (stamped_disk_after, None)"
    by (simp add: writeHooksFolder_def existsSync_def stamped_disk_def stamped_disk_after_def
        sample_hooks_def hookFile_def)
  have d: "distinct (map fst sample_hooks)" by (simp add: sample_hooks_def)
  have n: "[''src''] @ [''hooks'', ''useMine.ts''] \<notin>
     set (map (hookFile ([''src''] @ [''hooks''])) (map fst sample_hooks))"
    by (simp add: sample_hooks_def hookFile_def)
  have o: "observe stamped_disk [''src'', ''hooks'', ''useDebounce.ts''] = Some (IsFile ''old'')"
    by (simp add: observe_def stamped_disk_def)
  from hook_files_written [OF w1 d] hook_files_written [OF w2 d] w1 w2 d n o
  show ?thesis by (simp add: sample_hooks_def)
qed

text \<open>
  Claim C6. Whether the writer succeeds or fails part of the way, every path other than
  the K hook files keeps what it held: a path that existed is unchanged, and a path that
  did not exist still does not, unless it is target/hooks or one of its missing parents,
  which can only have become a directory.
\<close>

theorem writer_frame:
  assumes "writeHooksFolder hooks t target = (t', r)"
    and "p \<notin> set (map (hookFile (target @ [''hooks''])) (map fst hooks))"
  shows "(observe t p \<noteq> None \<or> \<not> prefix p (target @ [''hooks'']) \<longrightarrow>
            observe t' p = observe t p) \<and>
         (observe t p = None \<and> prefix p (target @ [''hooks'']) \<longrightarrow>
            observe t' p = None \<or> observe t' p = Some IsDir)"
  using writeHooksFolder_frame [OF assms] writeHooksFolder_parents [OF assms(1)]
  by blast

theorem writer_frame_witness:
  "writeHooksFolder sample_hooks stamped_disk [''src''] = (stamped_disk_after, None) \<and>
   [''src'', ''hooks'', ''useMine.ts''] \<notin>
     set (map (hookFile ([''src''] @ [''hooks''])) (map fst sample_hooks)) \<and>
   observe stamped_disk [''src'', ''hooks'', ''useMine.ts''] = Some (IsFile ''mine'') \<and>
   observe stamped_disk_after [''src'', ''hooks'', ''useMine.ts''] = Some (IsFile ''mine'') \<and>
   writeHooksFolder sample_hooks proj_disk [''proj'', ''src'', ''app''] = (proj_disk_after, None) \<and>
   [''proj'', ''src'', ''app'', ''hooks''] \<notin>
     set (map (hookFile ([''proj'', ''src'', ''app''] @ [''hooks''])) (map fst sample_hooks)) \<and>
   observe proj_disk [''proj'', ''src'', ''app'', ''hooks''] = None \<and>
   prefix [''proj'', ''src'', ''app'', ''hooks''] ([''proj'', ''src'', ''app''] @ [''hooks'']) \<and>
   observe proj_disk_after [''proj'', ''src'', ''app'', ''hooks''] = Some IsDir"
proof -
  have w: "writeHooksFolder sample_hooks stamped_disk [''src''] = (stamped_disk_after, None)"
    by (simp add: writeHooksFolder_def existsSync_def stamped_disk_def stamped_disk_after_def
        sample_hooks_def hookFile_def)
  have n: "[''src'', ''hooks'', ''useMine.ts''] \<notin>
     set (map (hookFile ([''src''] @ [''hooks''])) (map fst sample_hooks))"
    by (simp add: sample_hooks_def hookFile_def)
  have o: "observe stamped_disk [''src'', ''hooks'', ''useMine.ts''] = Some (IsFile ''mine'')"
    by (simp add: observe_def stamped_disk_def)
  have w2: "writeHooksFolder sample_hooks proj_disk [''proj'', ''src'', ''app''] =
      (proj_disk_after, None)"
    by (simp add: writeHooksFolder_def existsSync_def proj_disk_def proj_entries_def
        proj_disk_after_def sample_hooks_def hookFile_def)
  have n2: "[''proj'', ''src'', ''app'', ''hooks''] \<notin>
     set (map (hookFile ([''proj'', ''src'', ''app''] @ [''hooks''])) (map fst sample_hooks))"
    by (simp add: sample_hooks_def hookFile_def)
  have o2: "observe proj_disk [''proj'', ''src'', ''app'', ''hooks''] = None"
    by (simp add: observe_def proj_disk_def proj_entries_def)
  have a2: "observe proj_disk_after [''proj'', ''src'', ''app'', ''hooks''] = Some IsDir"
    by (simp add: observe_def proj_disk_after_def)
  from writer_frame [OF w n] writer_frame [OF w2 n2] w n o w2 n2 o2 a2
  show ?thesis by simp
qed

section \<open>When a write of a hook file fails\<close>

lemma writeFileSync_on_dir:
  "observe t q = Some IsDir \<Longrightarrow> writeFileSync t q c = Inl EISDIR"
proof (induction t q c rule: writeFileSync.induct)
  case (4 es n p data)
  then show ?case
    by (auto simp: observe_Dir_Cons split: option.splits)
qed (auto simp: observe_Nil observe_File_Cons)

lemma writeFileSync_below_file:
  "observe t hp = Some (IsFile x) \<Longrightarrow> writeFileSync t (hp @ [n]) c = Inl ENOTDIR"
proof (induction hp arbitrary: t)
  case Nil
  then show ?case by (cases t) (auto simp: observe_Nil)
next
  case (Cons m hp)
  then show ?case
    by (cases t) (auto simp: observe_Dir_Cons observe_File_Cons split: option.splits)
qed

lemma writeFileSync_in_dir:
  "is_dir t hp \<Longrightarrow> observe t (hp @ [x]) \<noteq> Some IsDir \<Longrightarrow>
   \<exists>t'. writeFileSync t (hp @ [x]) c = Inr t'"
proof (induction hp arbitrary: t)
  case Nil
  then obtain es where t: "t = Dir es"
    by (cases t) (auto simp: is_dir_def observe_Nil)
  show ?case
  proof (cases "map_of es x")
    case None
    with t show ?thesis by simp
  next
    case (Some ch)
    with Nil.prems(2) t show ?thesis
      by (cases ch) (auto simp: observe_Dir_Cons observe_Nil)
  qed
next
  case (Cons m hp)
  then obtain es where t: "t = Dir es"
    by (cases t) (auto simp: is_dir_def observe_File_Cons)
  with Cons.prems(1) obtain ch where ch: "map_of es m = Some ch" and d: "is_dir ch hp"
    by (auto simp: is_dir_def observe_Dir_Cons split: option.splits)
  from Cons.prems(2) t ch have "observe ch (hp @ [x]) \<noteq> Some IsDir"
    by (simp add: observe_Dir_Cons)
  from Cons.IH [OF d this] obtain ch' where "writeFileSync ch (hp @ [x]) c = Inr ch'" by blast
  with t ch show ?case by simp
qed

lemma hookFile_neq_dir: "hookFile hp n \<noteq> hp"
  by (simp add: hookFile_def)

text \<open>The loop stops at the first entry whose file name is taken by a directory; the
  entries before it have been written, the entries after it have not been touched.\<close>

lemma writeHooks_stops:
  assumes "is_dir t hp" and "distinct (map fst (before @ (n, c) # rest))"
    and "\<forall>m \<in> set (map fst before). observe t (hookFile hp m) \<noteq> Some IsDir"
    and "observe t (hookFile hp n) = Some IsDir"
  shows "\<exists>t'. writeHooks t hp (before @ (n, c) # rest) = (t', Some EISDIR) \<and>
           (\<forall>(m, d) \<in> set before. observe t' (hookFile hp m) = Some (IsFile d)) \<and>
           (\<forall>p. p \<notin> set (map (hookFile hp) (map fst before)) \<longrightarrow> observe t' p = observe t p)"
  using assms
proof (induction before arbitrary: t)
  case Nil
  then show ?case by (simp add: writeFileSync_on_dir)
next
  case (Cons entry before')
  obtain m d where entry: "entry = (m, d)" by (cases entry)
  have "observe t (hp @ [m @ ''.ts'']) \<noteq> Some IsDir"
    using Cons.prems(3) entry by (simp add: hookFile_def)
  from writeFileSync_in_dir [OF Cons.prems(1) this, of d]
  obtain t1 where w: "writeFileSync t (hookFile hp m) d = Inr t1"
    by (auto simp: hookFile_def)
  have fr: "observe t1 p = observe t p" if "p \<noteq> hookFile hp m" for p
    using writeFileSync_frame [OF w that] .
  have d1: "is_dir t1 hp"
    using Cons.prems(1) fr [of hp] hookFile_neq_dir [of hp m] by (simp add: is_dir_def)
  have dist: "distinct (map fst (before' @ (n, c) # rest))" and
    mnew: "m \<notin> set (map fst (before' @ (n, c) # rest))"
    using Cons.prems(2) entry by auto
  have others: "\<forall>k \<in> set (map fst before'). observe t1 (hookFile hp k) \<noteq> Some IsDir"
  proof
    fix k assume k: "k \<in> set (map fst before')"
    with mnew have "k \<noteq> m" by auto
    then have "observe t1 (hookFile hp k) = observe t (hookFile hp k)"
      by (intro fr) (simp add: hookFile_inj)
    moreover have "observe t (hookFile hp k) \<noteq> Some IsDir"
      using Cons.prems(3) k by auto
    ultimately show "observe t1 (hookFile hp k) \<noteq> Some IsDir" by simp
  qed
  have "n \<noteq> m" using mnew by auto
  then have nd: "observe t1 (hookFile hp n) = Some IsDir"
    using fr [of "hookFile hp n"] Cons.prems(4) by (simp add: hookFile_inj)
  from Cons.IH [OF d1 dist others nd]
  obtain t' where run: "writeHooks t1 hp (before' @ (n, c) # rest) = (t', Some EISDIR)"
    and kept: "\<forall>(k, v) \<in> set before'. observe t' (hookFile hp k) = Some (IsFile v)"
    and frame: "\<forall>p. p \<notin> set (map (hookFile hp) (map fst before')) \<longrightarrow> observe t' p = observe t1 p"
    by blast
  have "m \<notin> set (map fst before')" using mnew by auto
  then have "hookFile hp m \<notin> set (map (hookFile hp) (map fst before'))"
    by (force simp: hookFile_inj)
  with frame writeFileSync_at [OF w]
  have first: "observe t' (hookFile hp m) = Some (IsFile d)" by simp
  have "writeHooks t hp ((entry # before') @ (n, c) # rest) = (t', Some EISDIR)"
    using w run entry by simp
  moreover have "\<forall>(k, v) \<in> set (entry # before'). observe t' (hookFile hp k) = Some (IsFile v)"
    using kept first entry by simp
  moreover have "\<forall>p. p \<notin> set (map (hookFile hp) (map fst (entry # before'))) \<longrightarrow>
      observe t' p = observe t p"
    using frame fr entry by simp
  ultimately show ?case by blast
qed

lemma writeHooksFolder_stops:
  assumes "is_dir t (target @ [''hooks''])" and "distinct (map fst (before @ (n, c) # rest))"
    and "\<forall>m \<in> set (map fst before). observe t (hookFile (target @ [''hooks'']) m) \<noteq> Some IsDir"
    and "observe t (hookFile (target @ [''hooks'']) n) = Some IsDir"
  shows "\<exists>t'. writeHooksFolder (before @ (n, c) # rest) t target = (t', Some EISDIR) \<and>
           (\<forall>(m, d) \<in> set before.
              observe t' (hookFile (target @ [''hooks'']) m) = Some (IsFile d)) \<and>
           (\<forall>p. p \<notin> set (map (hookFile (target @ [''hooks''])) (map fst before)) \<longrightarrow>
              observe t' p = observe t p)"
proof -
  have "existsSync t (target @ [''hooks''])"
    using assms(1) by (auto simp: is_dir_def observe_def existsSync_def split: sum.splits)
  then have "writeHooksFolder (before @ (n, c) # rest) t target =
      writeHooks t (target @ [''hooks'']) (before @ (n, c) # rest)"
    by (simp add: writeHooksFolder_def)
  with writeHooks_stops [OF assms] show ?thesis by simp
qed

lemma writeHooksFolder_blocked:
  assumes "observe t (target @ [''hooks'']) = Some (IsFile x)"
  shows "writeHooksFolder ((n, c) # rest) t target = (t, Some ENOTDIR)"
proof -
  have "existsSync t (target @ [''hooks''])"
    using assms by (auto simp: observe_def existsSync_def split: sum.splits)
  moreover have "writeFileSync t (hookFile (target @ [''hooks'']) n) c = Inl ENOTDIR"
    using writeFileSync_below_file [OF assms] by (simp add: hookFile_def)
  ultimately show ?thesis by (simp add: writeHooksFolder_def)
qed

section \<open>The claims about failures\<close>

text \<open>
  Claim C7, as stated: every failure, an error raised by the file system included, is
  caught at the outermost boundary and turned into one message, and nothing leaves
  \<^verbatim>\<open>createHooksFolder\<close> as an exception. In a project where src/hooks is a regular
  file the first \<^verbatim>\<open>writeFileSync\<close> of the newest script raises \<^verbatim>\<open>ENOTDIR\<close>; the
  exception leaves \<^verbatim>\<open>createHooksFolder\<close>, and nothing has been printed.
\<close>

theorem uncaught_write_error_counterexample:
  "createHooksFolder sample_hooks (at_root blocked_disk []) =
     (Threw ENOTDIR, \<lparr>disk = blocked_disk, cwd = [], stdout = [], stderr = []\<rparr>)"
  by (simp add: createHooksFolder_def process_cwd_def findTargetDirectory_eq is_dir_def
      observe_def writeHooksFolder_def existsSync_def blocked_disk_def sample_hooks_def
      hookFile_def at_root_def)

text \<open>
  Claim C7, amended: the scripts have no handler. The one failure they turn into a
  message is not-found, by an explicit test of the search result: one line on standard
  error and exit status 1. An error raised by \<^verbatim>\<open>process.cwd()\<close> or by the write of a
  hook file leaves \<^verbatim>\<open>createHooksFolder\<close> as an exception and the script prints
  nothing. When target/hooks is a regular file the first write raises \<^verbatim>\<open>ENOTDIR\<close> and
  the disk is as before. When target/hooks is a directory and the file name of an entry of
  the table (whose keys are distinct) is taken by a directory, the write of the first
  such entry raises \<^verbatim>\<open>EISDIR\<close>:
  the files of the entries before it have been written and stay, and every other path,
  the files of the later entries included, is as before.
\<close>

theorem failures_at_the_boundary:
  "(process_cwd w = Inl e \<longrightarrow>
      createHooksFolder hooks w = (Threw e, w) \<and>
      createHooksFolder_dfs hooks w = Some (Threw e, w)) \<and>
   (process_cwd w = Inr root \<and> findTargetDirectory (disk w) root = Inr None \<longrightarrow>
      createHooksFolder hooks w =
        (Exited 1,
         w\<lparr>stderr := stderr w @
           [''No src, src/app, or app folder found in the current directory.'']\<rparr>)) \<and>
   (process_cwd w = Inr root \<and> findTargetDirectory_dfs (disk w) root = Some (Inr None) \<longrightarrow>
      createHooksFolder_dfs hooks w =
        Some (Exited 1,
          w\<lparr>stderr := stderr w @
            [''No src or app folder found in the current directory or its subdirectories.'']\<rparr>)) \<and>
   (process_cwd w = Inr root \<and> observe (disk w) (target @ [''hooks'']) = Some (IsFile x) \<and>
    hooks = (n, c) # rest \<longrightarrow>
      (findTargetDirectory (disk w) root = Inr (Some target) \<longrightarrow>
         createHooksFolder hooks w = (Threw ENOTDIR, w)) \<and>
      (findTargetDirectory_dfs (disk w) root = Some (Inr (Some target)) \<longrightarrow>
         createHooksFolder_dfs hooks w = Some (Threw ENOTDIR, w))) \<and>
   (process_cwd w = Inr root \<and> is_dir (disk w) (target @ [''hooks'']) \<and>
    hooks = before @ (n, c) # rest \<and> distinct (map fst hooks) \<and>
    (\<forall>m \<in> set (map fst before).
       observe (disk w) (hookFile (target @ [''hooks'']) m) \<noteq> Some IsDir) \<and>
    observe (disk w) (hookFile (target @ [''hooks'']) n) = Some IsDir \<longrightarrow>
      (\<exists>t'. (\<forall>(m, d) \<in> set before.
                 observe t' (hookFile (target @ [''hooks'']) m) = Some (IsFile d)) \<and>
            (\<forall>p. p \<notin> set (map (hookFile (target @ [''hooks''])) (map fst before)) \<longrightarrow>
                 observe t' p = observe (disk w) p) \<and>
            (findTargetDirectory (disk w) root = Inr (Some target) \<longrightarrow>
               createHooksFolder hooks w = (Threw EISDIR, w\<lparr>disk := t'\<rparr>)) \<and>
            (findTargetDirectory_dfs (disk w) root = Some (Inr (Some target)) \<longrightarrow>
               createHooksFolder_dfs hooks w = Some (Threw EISDIR, w\<lparr>disk := t'\<rparr>))))"
proof (intro conjI impI)
  assume "process_cwd w = Inl e"
  then show "createHooksFolder hooks w = (Threw e, w)"
    and "createHooksFolder_dfs hooks w = Some (Threw e, w)"
    by (simp_all add: createHooksFolder_cwd_error createHooksFolder_dfs_cwd_error)
next
  assume "process_cwd w = Inr root \<and> findTargetDirectory (disk w) root = Inr None"
  then show "createHooksFolder hooks w =
        (Exited 1,
         w\<lparr>stderr := stderr w @
           [''No src, src/app, or app folder found in the current directory.'']\<rparr>)"
    by (simp add: createHooksFolder_not_found)
next
  assume "process_cwd w = Inr root \<and> findTargetDirectory_dfs (disk w) root = Some (Inr None)"
  then show "createHooksFolder_dfs hooks w =
        Some (Exited 1,
          w\<lparr>stderr := stderr w @
            [''No src or app folder found in the current directory or its subdirectories.'']\<rparr>)"
    by (simp add: createHooksFolder_dfs_not_found)
next
  assume a: "process_cwd w = Inr root \<and> observe (disk w) (target @ [''hooks'']) = Some (IsFile x) \<and>
    hooks = (n, c) # rest"
  then have wr: "writeHooksFolder hooks (disk w) target = (disk w, Some ENOTDIR)"
    by (simp add: writeHooksFolder_blocked)
  {
    assume "findTargetDirectory (disk w) root = Inr (Some target)"
    with a wr show "createHooksFolder hooks w = (Threw ENOTDIR, w)"
      using createHooksFolder_write_error [of w root target hooks "disk w" ENOTDIR] by simp
  }
  {
    assume "findTargetDirectory_dfs (disk w) root = Some (Inr (Some target))"
    with a wr show "createHooksFolder_dfs hooks w = Some (Threw ENOTDIR, w)"
      using createHooksFolder_dfs_write_error [of w root target hooks "disk w" ENOTDIR] by simp
  }
next
  assume a: "process_cwd w = Inr root \<and> is_dir (disk w) (target @ [''hooks'']) \<and>
    hooks = before @ (n, c) # rest \<and> distinct (map fst hooks) \<and>
    (\<forall>m \<in> set (map fst before).
       observe (disk w) (hookFile (target @ [''hooks'']) m) \<noteq> Some IsDir) \<and>
    observe (disk w) (hookFile (target @ [''hooks'']) n) = Some IsDir"
  then have "distinct (map fst hooks)" and "hooks = before @ (n, c) # rest" by blast+
  then have dist: "distinct (map fst (before @ (n, c) # rest))" by blast
  from a have cw: "process_cwd w = Inr root" and hooks: "hooks = before @ (n, c) # rest"
    and d: "is_dir (disk w) (target @ [''hooks''])"
    and free: "\<forall>m \<in> set (map fst before).
       observe (disk w) (hookFile (target @ [''hooks'']) m) \<noteq> Some IsDir"
    and taken: "observe (disk w) (hookFile (target @ [''hooks'']) n) = Some IsDir"
    by blast+
  from writeHooksFolder_stops [OF d dist free taken]
  obtain t' where wr: "writeHooksFolder hooks (disk w) target = (t', Some EISDIR)"
    and kept: "\<forall>(m, d) \<in> set before.
                 observe t' (hookFile (target @ [''hooks'']) m) = Some (IsFile d)"
    and frame: "\<forall>p. p \<notin> set (map (hookFile (target @ [''hooks''])) (map fst before)) \<longrightarrow>
                 observe t' p = observe (disk w) p"
    using hooks by blast
  have b: "findTargetDirectory (disk w) root = Inr (Some target) \<longrightarrow>
      createHooksFolder hooks w = (Threw EISDIR, w\<lparr>disk := t'\<rparr>)"
    using createHooksFolder_write_error [OF cw _ wr] by blast
  have a': "findTargetDirectory_dfs (disk w) root = Some (Inr (Some target)) \<longrightarrow>
      createHooksFolder_dfs hooks w = Some (Threw EISDIR, w\<lparr>disk := t'\<rparr>)"
    using createHooksFolder_dfs_write_error [OF cw _ wr] by blast
  from kept frame b a'
  show "\<exists>t'. (\<forall>(m, d) \<in> set before.
                 observe t' (hookFile (target @ [''hooks'']) m) = Some (IsFile d)) \<and>
            (\<forall>p. p \<notin> set (map (hookFile (target @ [''hooks''])) (map fst before)) \<longrightarrow>
                 observe t' p = observe (disk w) p) \<and>
            (findTargetDirectory (disk w) root = Inr (Some target) \<longrightarrow>
               createHooksFolder hooks w = (Threw EISDIR, w\<lparr>disk := t'\<rparr>)) \<and>
            (findTargetDirectory_dfs (disk w) root = Some (Inr (Some target)) \<longrightarrow>
               createHooksFolder_dfs hooks w = Some (Threw EISDIR, w\<lparr>disk := t'\<rparr>))"
    by blast
qed

theorem failures_at_the_boundary_witness:
  "process_cwd (at_root empty_disk [''missing'']) = Inl ENOENT \<and>
   createHooksFolder sample_hooks (at_root empty_disk [''missing'']) =
     (Threw ENOENT, at_root empty_disk [''missing'']) \<and>
   createHooksFolder_dfs sample_hooks (at_root empty_disk [''missing'']) =
     Some (Threw ENOENT, at_root empty_disk [''missing'']) \<and>
   process_cwd (at_root empty_disk [''empty'']) = Inr [''empty''] \<and>
   findTargetDirectory empty_disk [''empty''] = Inr None \<and>
   findTargetDirectory_dfs empty_disk [''empty''] = Some (Inr None) \<and>
   createHooksFolder sample_hooks (at_root empty_disk [''empty'']) =
     (Exited 1,
      \<lparr>disk = empty_disk, cwd = [''empty''], stdout = [],
       stderr = [''No src, src/app, or app folder found in the current directory.'']\<rparr>) \<and>
   createHooksFolder_dfs sample_hooks (at_root empty_disk [''empty'']) =
     Some (Exited 1,
      \<lparr>disk = empty_disk, cwd = [''empty''], stdout = [],
       stderr =
         [''No src or app folder found in the current directory or its subdirectories.'']\<rparr>) \<and>
   process_cwd (at_root blocked_disk []) = Inr [] \<and>
   observe blocked_disk ([''src''] @ [''hooks'']) = Some (IsFile ''notes'') \<and>
   findTargetDirectory blocked_disk [] = Inr (Some [''src'']) \<and>
   findTargetDirectory_dfs blocked_disk [] = Some (Inr (Some [''src''])) \<and>
   createHooksFolder sample_hooks (at_root blocked_disk []) =
     (Threw ENOTDIR, at_root blocked_disk []) \<and>
   createHooksFolder_dfs sample_hooks (at_root blocked_disk []) =
     Some (Threw ENOTDIR, at_root blocked_disk []) \<and>
   process_cwd (at_root partial_disk []) = Inr [] \<and>
   is_dir partial_disk ([''src''] @ [''hooks'']) \<and>
   three_hooks =
     [(''useDebounce'', ''export function useDebounce() {}'')] @
     (''useThrottle'', ''export function useThrottle() {}'') #
     [(''useFetch'', ''export function useFetch() {}'')] \<and>
   distinct (map fst three_hooks) \<and>
   observe partial_disk (hookFile ([''src''] @ [''hooks'']) ''useDebounce'') = None \<and>
   observe partial_disk (hookFile ([''src''] @ [''hooks'']) ''useThrottle'') = Some IsDir \<and>
   findTargetDirectory partial_disk [] = Inr (Some [''src'']) \<and>
   findTargetDirectory_dfs partial_disk [] = Some (Inr (Some [''src''])) \<and>
   createHooksFolder three_hooks (at_root partial_disk []) =
     (Threw EISDIR, \<lparr>disk = partial_disk_after, cwd = [], stdout = [], stderr = []\<rparr>) \<and>
   createHooksFolder_dfs three_hooks (at_root partial_disk []) =
     Some (Threw EISDIR, \<lparr>disk = partial_disk_after, cwd = [], stdout = [], stderr = []\<rparr>) \<and>
   observe partial_disk_after [''src'', ''hooks'', ''useDebounce.ts''] =
     Some (IsFile ''export function useDebounce() {}'') \<and>
   observe partial_disk_after [''src'', ''hooks'', ''useThrottle.ts''] = Some IsDir \<and>
   observe partial_disk_after [''src'', ''hooks'', ''useFetch.ts''] = Some (IsFile ''old fetch'')"
proof -
  have c1: "process_cwd (at_root empty_disk [''missing'']) = Inl ENOENT"
    by (simp add: process_cwd_def at_root_def is_dir_def observe_def empty_disk_def)
  have c2: "process_cwd (at_root empty_disk [''empty'']) = Inr [''empty'']"
    by (simp add: process_cwd_def at_root_def is_dir_def observe_def empty_disk_def)
  have b2: "findTargetDirectory empty_disk [''empty''] = Inr None"
    by (simp add: findTargetDirectory_eq is_dir_def observe_def empty_disk_def empty_entries_def)
  have a2: "findTargetDirectory_dfs empty_disk [''empty''] = Some (Inr None)"
    by (simp add: findTargetDirectory_dfs_def readdirSync_def empty_disk_def empty_entries_def
        loop_Cons loop_Nil statSync_def)
  have c3: "process_cwd (at_root blocked_disk []) = Inr []"
    by (simp add: process_cwd_def at_root_def is_dir_def observe_def blocked_disk_def)
  have o3: "observe blocked_disk ([''src''] @ [''hooks'']) = Some (IsFile ''notes'')"
    by (simp add: observe_def blocked_disk_def)
  have b3: "findTargetDirectory blocked_disk [] = Inr (Some [''src''])"
    by (simp add: findTargetDirectory_eq is_dir_def observe_def blocked_disk_def)
  have a3: "findTargetDirectory_dfs blocked_disk [] = Some (Inr (Some [''src'']))"
    by (simp add: findTargetDirectory_dfs_def readdirSync_def blocked_disk_def loop_Cons
        statSync_def)
  have c4: "process_cwd (at_root partial_disk []) = Inr []"
    by (simp add: process_cwd_def at_root_def is_dir_def observe_def partial_disk_def)
  have d4: "is_dir partial_disk ([''src''] @ [''hooks''])"
    by (simp add: is_dir_def observe_def partial_disk_def)
  have h4: "three_hooks =
     [(''useDebounce'', ''export function useDebounce() {}'')] @
     (''useThrottle'', ''export function useThrottle() {}'') #
     [(''useFetch'', ''export function useFetch() {}'')]"
    by (simp add: three_hooks_def)
  have u4: "distinct (map fst three_hooks)" by (simp add: three_hooks_def)
  have f4: "observe partial_disk (hookFile ([''src''] @ [''hooks'']) ''useDebounce'') = None"
    by (simp add: observe_def hookFile_def partial_disk_def)
  have t4: "observe partial_disk (hookFile ([''src''] @ [''hooks'']) ''useThrottle'') = Some IsDir"
    by (simp add: observe_def hookFile_def partial_disk_def)
  have b4: "findTargetDirectory partial_disk [] = Inr (Some [''src''])"
    by (simp add: findTargetDirectory_eq is_dir_def observe_def partial_disk_def)
  have a4: "findTargetDirectory_dfs partial_disk [] = Some (Inr (Some [''src'']))"
    by (simp add: findTargetDirectory_dfs_def readdirSync_def partial_disk_def loop_Cons
        statSync_def)
  have r4: "createHooksFolder three_hooks (at_root partial_disk []) =
     (Threw EISDIR, \<lparr>disk = partial_disk_after, cwd = [], stdout = [], stderr = []\<rparr>)"
    using c4 b4
    by (simp add: createHooksFolder_def at_root_def writeHooksFolder_def existsSync_def
        partial_disk_def partial_disk_after_def three_hooks_def hookFile_def)
  have s4: "createHooksFolder_dfs three_hooks (at_root partial_disk []) =
     Some (Threw EISDIR, \<lparr>disk = partial_disk_after, cwd = [], stdout = [], stderr = []\<rparr>)"
    using c4 a4
    by (simp add: createHooksFolder_dfs_def at_root_def writeHooksFolder_def existsSync_def
        partial_disk_def partial_disk_after_def three_hooks_def hookFile_def)
  have o4: "observe partial_disk_after [''src'', ''hooks'', ''useDebounce.ts''] =
       Some (IsFile ''export function useDebounce() {}'')"
    "observe partial_disk_after [''src'', ''hooks'', ''useThrottle.ts''] = Some IsDir"
    "observe partial_disk_after [''src'', ''hooks'', ''useFetch.ts''] = Some (IsFile ''old fetch'')"
    by (simp_all add: observe_def partial_disk_after_def)
  note i1 = failures_at_the_boundary
    [where w = "at_root empty_disk [''missing'']" and hooks = sample_hooks and e = ENOENT]
  note i2 = failures_at_the_boundary
    [where w = "at_root empty_disk [''empty'']" and hooks = sample_hooks and root = "[''empty'']"]
  note i3 = failures_at_the_boundary
    [where w = "at_root blocked_disk []" and hooks = sample_hooks and root = "[]"
       and target = "[''src'']" and x = "''notes''" and n = "''useDebounce''"
       and c = "''export function useDebounce() {}''"
       and rest = "[(''useThrottle'', ''export function useThrottle() {}'')]"]
  note i4 = failures_at_the_boundary
    [where w = "at_root partial_disk []" and hooks = three_hooks and root = "[]"
       and target = "[''src'']"
       and before = "[(''useDebounce'', ''export function useDebounce() {}'')]"
       and n = "''useThrottle''" and c = "''export function useThrottle() {}''"
       and rest = "[(''useFetch'', ''export function useFetch() {}'')]"]
  have e1: "createHooksFolder sample_hooks (at_root empty_disk [''missing'']) =
     (Threw ENOENT, at_root empty_disk [''missing''])"
    "createHooksFolder_dfs sample_hooks (at_root empty_disk [''missing'']) =
     Some (Threw ENOENT, at_root empty_disk [''missing''])"
    using i1 c1 by blast+
  have e2: "createHooksFolder sample_hooks (at_root empty_disk [''empty'']) =
     (Exited 1,
      \<lparr>disk = empty_disk, cwd = [''empty''], stdout = [],
       stderr = [''No src, src/app, or app folder found in the current directory.'']\<rparr>)"
    "createHooksFolder_dfs sample_hooks (at_root empty_disk [''empty'']) =
     Some (Exited 1,
      \<lparr>disk = empty_disk, cwd = [''empty''], stdout = [],
       stderr =
         [''No src or app folder found in the current directory or its subdirectories.'']\<rparr>)"
    using i2 c2 b2 a2 by (simp_all add: at_root_def)
  have e3: "createHooksFolder sample_hooks (at_root blocked_disk []) =
     (Threw ENOTDIR, at_root blocked_disk [])"
    "createHooksFolder_dfs sample_hooks (at_root blocked_disk []) =
     Some (Threw ENOTDIR, at_root blocked_disk [])"
    using i3 c3 o3 b3 a3 by (simp_all add: at_root_def sample_hooks_def)
  have e4: "\<exists>t'. createHooksFolder three_hooks (at_root partial_disk []) =
       (Threw EISDIR, at_root partial_disk [] \<lparr>disk := t'\<rparr>) \<and>
     observe t' (hookFile ([''src''] @ [''hooks'']) ''useDebounce'') =
       Some (IsFile ''export function useDebounce() {}'')"
    using i4 c4 d4 h4 u4 f4 t4 b4 by (simp add: at_root_def) blast
  from e1 e2 e3 e4 c1 c2 b2 a2 c3 o3 b3 a3 c4 d4 h4 u4 f4 t4 b4 a4 r4 s4 o4
  show ?thesis by (intro conjI)
qed

text \<open>
  Claim C8. The editor command tests \<^verbatim>\<open>!workspaceFolders\<close>, which holds when the host
  reports \<^verbatim>\<open>undefined\<close>. When the host reports an empty list of folders the test
  does not hold, \<^verbatim>\<open>workspaceFolders[0].uri\<close> raises a \<^verbatim>\<open>TypeError\<close>, and the command
  ends without showing the no-workspace message.
\<close>

theorem empty_workspace_list_throws:
  "createHooksFolder_vscode sample_hooks (in_editor proj_disk (Some [])) =
     Some (Threw TypeError,
       \<lparr>edisk = proj_disk, workspaceFolders = Some [], errorMessages = [],
        informationMessages = []\<rparr>)"
  by (simp add: createHooksFolder_vscode_def in_editor_def)

end
